theory Spec2Isabelle
  imports Complex_Main "HOL-Library.AList"
begin

section \<open>Data model of the room coordinator (server.js)\<close>

text \<open>
  Connection identifiers and room identifiers are JavaScript strings. A JavaScript
  \<open>Map\<close> iterates in insertion order, \<open>set\<close> on a present key keeps the key's
  position and \<open>set\<close> on an absent key appends: this is \<open>AList.update\<close> on an
  association list; \<open>Map.delete\<close> is \<open>AList.delete\<close> and \<open>Map.get\<close> is
  \<open>map_of\<close>. A value that may be \<open>undefined\<close> or \<open>null\<close> is an \<open>option\<close>.
  Numbers that the server only copies (the axes) are reals; numbers on which it computes
  (slots, the buttons mask) are integers.
\<close>

type_synonym sid = string

type_synonym blob = string

record player =
  slot :: int
  name :: string
  role :: string

record room =
  players :: "(sid \<times> player) list"
  host :: "sid option"
  emulatorSocket :: "sid option"
  romName :: "string option"

text \<open>The three fields the join handler writes into \<open>socket.data\<close>, always together.\<close>

record sockdata =
  sd_roomId :: string
  sd_slot :: int
  sd_isEmulator :: bool

record state =
  rooms :: "(string \<times> room) list"
  sockets :: "(sid \<times> sockdata) list"

definition init :: state where
  "init = \<lparr>rooms = [], sockets = []\<rparr>"

definition MAX_PLAYERS :: int where
  "MAX_PLAYERS = 4"

subsection \<open>Inbound payloads\<close>

record join_req =
  req_roomId :: "string option"
  req_playerName :: "string option"
  req_role :: "string option"

datatype axes = Axes real real

record joypad_payload =
  pl_buttons :: "int option"
  pl_axes :: "axes option"
  pl_roomId :: "string option"
  pl_slot :: "int option"

subsection \<open>Outbound messages\<close>

datatype room_info = RoomInfo string "sid option" "(sid \<times> player) list"

datatype room_summary = RoomSummary string nat int "(int \<times> string) list" "string option"

datatype message =
    RoomError string
  | RoomJoined int bool string "room_info option"
  | RoomUpdated "room_info option"
  | RoomsList "room_summary list"
  | ViewerJoined sid int string
  | EmulatorJoined
  | EmulatorLeft
  | JoypadState int int axes
  | EmuFrame blob
  | EmuSavestate blob
  | WebrtcOffer sid blob
  | WebrtcAnswer sid blob
  | WebrtcIce sid blob
  | EmulatorGameStarted
  | RoomNewHost "sid option"
  | ChatMsg string int string

text \<open>
  The four ways the server addresses an emission: \<open>socket.emit\<close> (the socket itself),
  \<open>socket.to(r)\<close> (the transport channel \<open>r\<close> without the socket), \<open>io.to(x)\<close>
  (the transport channel named \<open>x\<close>; the server uses a connection identifier as the name
  for unicast) and \<open>io.emit\<close> (every connection).
\<close>

datatype address = ToSocket sid | ToOthers sid string | IoTo string | IoAll

datatype action = Emit address message | SocketJoin sid string | Ack sid nat

subsection \<open>JavaScript truthiness of the values involved\<close>

definition truthy_str :: "string option \<Rightarrow> bool" where
  "truthy_str v = (case v of None \<Rightarrow> False | Some s \<Rightarrow> s \<noteq> [])"

definition or_str :: "string option \<Rightarrow> string \<Rightarrow> string" where
  "or_str v d = (case v of None \<Rightarrow> d | Some s \<Rightarrow> if s = [] then d else s)"

definition or_ref :: "string option \<Rightarrow> string option \<Rightarrow> string option" where
  "or_ref a b = (if truthy_str a then a else b)"

definition or_num :: "int option \<Rightarrow> int option \<Rightarrow> int option" where
  "or_num a b = (case a of None \<Rightarrow> b | Some n \<Rightarrow> if n = 0 then b else Some n)"

text \<open>Decimal rendering of a slot number inside the template literal \<open>Player ${slot}\<close>.\<close>

fun show_nat :: "nat \<Rightarrow> string" where
  "show_nat n =
     (if n < 10 then [''0123456789'' ! n]
      else show_nat (n div 10) @ [''0123456789'' ! (n mod 10)])"

definition show_int :: "int \<Rightarrow> string" where
  "show_int i = (if i < 0 then CHR ''-'' # show_nat (nat (- i)) else show_nat (nat i))"

section \<open>Room helpers\<close>

definition getAllRooms :: "(string \<times> room) list \<Rightarrow> room_summary list" where
  "getAllRooms rs =
     map (\<lambda>(rid, r). RoomSummary rid (length (players r)) MAX_PLAYERS
            (map (\<lambda>(k, p). (slot p, name p)) (players r))
            (if truthy_str (romName r) then romName r else None)) rs"

definition broadcastRoomList :: "(string \<times> room) list \<Rightarrow> action list" where
  "broadcastRoomList rs = [Emit IoAll (RoomsList (getAllRooms rs))]"

definition newRoom :: room where
  "newRoom = \<lparr>players = [], host = None, emulatorSocket = None, romName = None\<rparr>"

definition getOrCreateRoom :: "(string \<times> room) list \<Rightarrow> string \<Rightarrow> (string \<times> room) list \<times> room" where
  "getOrCreateRoom rs rid =
     (case map_of rs rid of
        Some r \<Rightarrow> (rs, r)
      | None \<Rightarrow> (AList.update rid newRoom rs, newRoom))"

function scanSlots :: "int list \<Rightarrow> int \<Rightarrow> int option" where
  "scanSlots used s =
     (if s \<le> MAX_PLAYERS
      then (if s \<notin> set used then Some s else scanSlots used (s + 1))
      else None)"
  by pat_completeness auto
termination
  by (relation "measure (\<lambda>(used, s). nat (MAX_PLAYERS + 1 - s))") auto

definition usedSlots :: "room \<Rightarrow> int list" where
  "usedSlots r = map (\<lambda>(k, p). slot p) (players r)"

definition assignSlot :: "room \<Rightarrow> int option" where
  "assignSlot r = scanSlots (usedSlots r) 1"

definition roomInfo :: "(string \<times> room) list \<Rightarrow> string \<Rightarrow> room_info option" where
  "roomInfo rs rid =
     (case map_of rs rid of
        None \<Rightarrow> None
      | Some r \<Rightarrow> Some (RoomInfo rid (host r) (players r)))"

section \<open>Socket.IO event handlers\<close>

definition normRoomId :: "string option \<Rightarrow> string" where
  "normRoomId v = take 32 (or_str v ''default'')"

definition room_join :: "state \<Rightarrow> sid \<Rightarrow> join_req \<Rightarrow> state \<times> action list" where
  "room_join st sock rq =
     (let rid = normRoomId (req_roomId rq);
          (rs1, r) = getOrCreateRoom (rooms st) rid
      in case assignSlot r of
           None \<Rightarrow>
             (st\<lparr>rooms := rs1\<rparr>,
              [Emit (ToSocket sock) (RoomError ''Room is full (max 4 players).'')])
         | Some s \<Rightarrow>
             (let isHost = (length (players r) = 0);
                  isEmulator = (req_role rq = Some ''emulator'');
                  pname = or_str (req_playerName rq) (''Player '' @ show_int s);
                  r1 = r\<lparr>players := AList.update sock
                         \<lparr>slot = s, name = pname, role = or_str (req_role rq) ''controller''\<rparr>
                         (players r)\<rparr>;
                  r2 = (if isHost then r1\<lparr>host := Some sock\<rparr> else r1);
                  r3 = (if isEmulator then r2\<lparr>emulatorSocket := Some sock\<rparr> else r2);
                  rs2 = AList.update rid r3 rs1;
                  st' = \<lparr>rooms = rs2,
                         sockets = AList.update sock
                           \<lparr>sd_roomId = rid, sd_slot = s, sd_isEmulator = isEmulator\<rparr>
                           (sockets st)\<rparr>
              in (st',
                  [SocketJoin sock rid,
                   Emit (ToSocket sock) (RoomJoined s isHost rid (roomInfo rs2 rid)),
                   Emit (ToOthers sock rid) (RoomUpdated (roomInfo rs2 rid))]
                  @ broadcastRoomList rs2
                  @ (if \<not> isEmulator \<and> truthy_str (emulatorSocket r3)
                     then [Emit (IoTo (or_str (emulatorSocket r3) []))
                             (ViewerJoined sock s pname)]
                     else [])
                  @ (if isEmulator
                     then map (\<lambda>(k, p). Emit (ToSocket sock) (ViewerJoined k (slot p) (name p)))
                            (filter (\<lambda>(k, p). k \<noteq> sock \<and> role p \<noteq> ''emulator'') (players r3))
                          @ [Emit (ToOthers sock rid) EmulatorJoined]
                     else []))))"

definition toUint32 :: "int option \<Rightarrow> int" where
  "toUint32 v = (case v of None \<Rightarrow> 0 | Some b \<Rightarrow> b mod 2 ^ 32)"

definition joypad_input :: "state \<Rightarrow> sid \<Rightarrow> joypad_payload \<Rightarrow> state \<times> action list" where
  "joypad_input st sock payload =
     (let d = map_of (sockets st) sock;
          roomId = or_str (map_option sd_roomId d) (or_str (pl_roomId payload) []);
          slt = or_num (or_num (map_option sd_slot d) (pl_slot payload)) None
      in if roomId = [] \<or> slt = None then (st, [])
         else case map_of (rooms st) roomId of
                None \<Rightarrow> (st, [])
              | Some r \<Rightarrow>
                  (let target = or_ref (emulatorSocket r) (host r)
                   in if \<not> truthy_str target then (st, [])
                      else (st, [Emit (IoTo (or_str target []))
                                   (JoypadState (case slt of Some n \<Rightarrow> n | None \<Rightarrow> 0)
                                      (toUint32 (pl_buttons payload))
                                      (case pl_axes payload of
                                         Some a \<Rightarrow> a | None \<Rightarrow> Axes 0 0))])))"

definition emu_frame :: "state \<Rightarrow> sid \<Rightarrow> blob \<Rightarrow> state \<times> action list" where
  "emu_frame st sock frameData =
     (case map_of (sockets st) sock of
        None \<Rightarrow> (st, [])
      | Some d \<Rightarrow>
          if sd_roomId d = [] then (st, [])
          else (st, [Emit (ToOthers sock (sd_roomId d)) (EmuFrame frameData)]))"

definition emu_savestate :: "state \<Rightarrow> sid \<Rightarrow> blob \<Rightarrow> state \<times> action list" where
  "emu_savestate st sock dat =
     (case map_of (sockets st) sock of
        None \<Rightarrow> (st, [])
      | Some d \<Rightarrow>
          if sd_roomId d = [] then (st, [])
          else (st, [Emit (ToOthers sock (sd_roomId d)) (EmuSavestate dat)]))"

definition room_setrom :: "state \<Rightarrow> sid \<Rightarrow> string option \<Rightarrow> state \<times> action list" where
  "room_setrom st sock rn =
     (case map_of (sockets st) sock of
        None \<Rightarrow> (st, [])
      | Some d \<Rightarrow>
          (case map_of (rooms st) (sd_roomId d) of
             None \<Rightarrow> (st, [])
           | Some r \<Rightarrow>
               (let rs' = AList.update (sd_roomId d)
                            (r\<lparr>romName := Some (take 80 (or_str rn []))\<rparr>) (rooms st)
                in (st\<lparr>rooms := rs'\<rparr>, broadcastRoomList rs'))))"

definition webrtc_offer :: "state \<Rightarrow> sid \<Rightarrow> string \<Rightarrow> blob \<Rightarrow> state \<times> action list" where
  "webrtc_offer st sock to offer = (st, [Emit (IoTo to) (WebrtcOffer sock offer)])"

definition webrtc_answer :: "state \<Rightarrow> sid \<Rightarrow> string \<Rightarrow> blob \<Rightarrow> state \<times> action list" where
  "webrtc_answer st sock to answer = (st, [Emit (IoTo to) (WebrtcAnswer sock answer)])"

definition webrtc_ice :: "state \<Rightarrow> sid \<Rightarrow> string \<Rightarrow> blob \<Rightarrow> state \<times> action list" where
  "webrtc_ice st sock to candidate = (st, [Emit (IoTo to) (WebrtcIce sock candidate)])"

definition emulator_game_started :: "state \<Rightarrow> sid \<Rightarrow> state \<times> action list" where
  "emulator_game_started st sock =
     (case map_of (sockets st) sock of
        None \<Rightarrow> (st, [])
      | Some d \<Rightarrow>
          if sd_roomId d = [] then (st, [])
          else (st, [Emit (ToOthers sock (sd_roomId d)) EmulatorGameStarted]))"

definition webrtc_request_offer :: "state \<Rightarrow> sid \<Rightarrow> state \<times> action list" where
  "webrtc_request_offer st sock =
     (case map_of (sockets st) sock of
        None \<Rightarrow> (st, [])
      | Some d \<Rightarrow>
          (case map_of (rooms st) (sd_roomId d) of
             None \<Rightarrow> (st, [])
           | Some r \<Rightarrow>
               if \<not> truthy_str (emulatorSocket r) then (st, [])
               else (st, [Emit (IoTo (or_str (emulatorSocket r) []))
                            (ViewerJoined sock (sd_slot d)
                               (or_str (map_option name (map_of (players r) sock)) ''Viewer''))])))"

definition perf_ping :: "state \<Rightarrow> sid \<Rightarrow> bool \<Rightarrow> nat \<Rightarrow> state \<times> action list" where
  "perf_ping st sock hasAck now = (st, if hasAck then [Ack sock now] else [])"

definition chat_msg :: "state \<Rightarrow> sid \<Rightarrow> string \<Rightarrow> state \<times> action list" where
  "chat_msg st sock text =
     (case map_of (sockets st) sock of
        None \<Rightarrow> (st, [])
      | Some d \<Rightarrow>
          (case map_of (rooms st) (sd_roomId d) of
             None \<Rightarrow> (st, [])
           | Some r \<Rightarrow>
               (st, [Emit (IoTo (sd_roomId d))
                       (ChatMsg (case map_of (players r) sock of
                                   Some p \<Rightarrow> name p | None \<Rightarrow> ''Unknown'')
                          (sd_slot d) (take 200 text))])))"

text \<open>
  The replacement host of the disconnect handler: the first entry of the remaining
  participants whose role is not \<open>viewer\<close>, else the first key of the map.
\<close>

definition nextHost :: "(sid \<times> player) list \<Rightarrow> sid option" where
  "nextHost ps =
     (case find (\<lambda>(k, p). role p \<noteq> ''viewer'') ps of
        Some (k, p) \<Rightarrow> Some k
      | None \<Rightarrow> (case ps of [] \<Rightarrow> None | (k, p) # rest \<Rightarrow> Some k))"

definition disconnect :: "state \<Rightarrow> sid \<Rightarrow> state \<times> action list" where
  "disconnect st sock =
     (case map_of (sockets st) sock of
        None \<Rightarrow> (st, [])
      | Some d \<Rightarrow>
          if sd_roomId d = [] then (st, [])
          else
            (case map_of (rooms st) (sd_roomId d) of
               None \<Rightarrow> (st, [])
             | Some r \<Rightarrow>
                 (let rid = sd_roomId d;
                      r1 = r\<lparr>players := AList.delete sock (players r)\<rparr>;
                      wasEmu = (emulatorSocket r1 = Some sock);
                      r2 = (if wasEmu then r1\<lparr>emulatorSocket := None\<rparr> else r1);
                      out1 = (if wasEmu then [Emit (IoTo rid) EmulatorLeft] else [])
                  in if length (players r2) = 0
                     then (let rs' = AList.delete rid (rooms st)
                           in (st\<lparr>rooms := rs'\<rparr>, out1 @ broadcastRoomList rs'))
                     else
                       (let wasHost = (host r2 = Some sock);
                            r3 = (if wasHost then r2\<lparr>host := nextHost (players r2)\<rparr> else r2);
                            out2 = (if wasHost then [Emit (IoTo rid) (RoomNewHost (host r3))]
                                    else []);
                            rs' = AList.update rid r3 (rooms st)
                        in (st\<lparr>rooms := rs'\<rparr>,
                            out1 @ out2 @ [Emit (IoTo rid) (RoomUpdated (roomInfo rs' rid))]
                            @ broadcastRoomList rs')))))"

text \<open>The periodic stale-room cleanup (the \<open>setInterval\<close> callback).\<close>

definition cleanup :: "state \<Rightarrow> state \<times> action list" where
  "cleanup st =
     (let kept = filter (\<lambda>(rid, r). length (players r) \<noteq> 0) (rooms st);
          cleaned = length (rooms st) - length kept
      in (st\<lparr>rooms := kept\<rparr>, if cleaned \<noteq> 0 then broadcastRoomList kept else []))"

section \<open>The coordinator as a transition system\<close>

text \<open>
  Every handler runs to completion, so a run of the server is a sequence of events, each
  carrying the identifier of the socket it arrives on. The registry \<open>rooms\<close> and the
  \<open>socket.data\<close> of every socket form the state; a handler returns the new state and
  the emissions it makes, in order. Event sequences are not restricted: a socket may join
  several times, and events of a socket after its disconnect are allowed although the
  transport never delivers them, so everything proved of all sequences holds of the real
  ones. Fields of inbound payloads are strings, integers or absent; \<open>perf:ping\<close> takes
  the clock reading as an argument. The HTTP routes read the registry only and are left
  out.
\<close>

datatype event =
    RoomJoin sid join_req
  | JoypadInput sid joypad_payload
  | EmuFrameEv sid blob
  | EmuSavestateEv sid blob
  | RoomSetrom sid "string option"
  | WebrtcOfferEv sid string blob
  | WebrtcAnswerEv sid string blob
  | WebrtcIceEv sid string blob
  | GameStarted sid
  | RequestOffer sid
  | PerfPing sid bool nat
  | ChatEv sid string
  | Disconnect sid
  | CleanupTick

fun step :: "state \<Rightarrow> event \<Rightarrow> state \<times> action list" where
  "step st (RoomJoin c rq) = room_join st c rq"
| "step st (JoypadInput c p) = joypad_input st c p"
| "step st (EmuFrameEv c b) = emu_frame st c b"
| "step st (EmuSavestateEv c b) = emu_savestate st c b"
| "step st (RoomSetrom c rn) = room_setrom st c rn"
| "step st (WebrtcOfferEv c to b) = webrtc_offer st c to b"
| "step st (WebrtcAnswerEv c to b) = webrtc_answer st c to b"
| "step st (WebrtcIceEv c to b) = webrtc_ice st c to b"
| "step st (GameStarted c) = emulator_game_started st c"
| "step st (RequestOffer c) = webrtc_request_offer st c"
| "step st (PerfPing c a t) = perf_ping st c a t"
| "step st (ChatEv c t) = chat_msg st c t"
| "step st (Disconnect c) = disconnect st c"
| "step st CleanupTick = cleanup st"

definition exec :: "event list \<Rightarrow> state" where
  "exec evs = foldl (\<lambda>st ev. fst (step st ev)) init evs"

section \<open>Delivery by the transport\<close>

text \<open>
  Modelled from the spec: the transport layer (Socket.IO) is not under src/; the spec
  names it as the external collaborator that provides per-connection identifiers,
  room-scoped grouping and unicast/broadcast delivery. A transport state holds the open
  connections and the channel memberships made by the \<open>socket.join\<close> calls of
  server.js.
\<close>

record transport =
  live :: "sid list"
  joined :: "(sid \<times> string) list"

text \<open>
  Modelled from the spec: a live connection is a member of the channel named by its own
  identifier (this is what makes \<open>io.to(socketId)\<close> reach that socket) and of every
  channel it has joined.
\<close>

definition in_channel :: "transport \<Rightarrow> string \<Rightarrow> sid \<Rightarrow> bool" where
  "in_channel tr x c = (c \<in> set (live tr) \<and> (c = x \<or> (c, x) \<in> set (joined tr)))"

text \<open>
  Modelled from the spec: who receives an emission, for each of the four ways of addressing
  used by server.js.
\<close>

fun recipients :: "transport \<Rightarrow> address \<Rightarrow> sid list" where
  "recipients tr (ToSocket c) = filter (\<lambda>d. d = c) (live tr)"
| "recipients tr (ToOthers c x) = filter (\<lambda>d. in_channel tr x d \<and> d \<noteq> c) (live tr)"
| "recipients tr (IoTo x) = filter (in_channel tr x) (live tr)"
| "recipients tr IoAll = live tr"

text \<open>
  Modelled from the spec: the actions of one handler take effect in order; a
  \<open>socket.join\<close> adds a membership, an emission is delivered to the recipients it has
  at that moment.
\<close>

fun dispatch :: "transport \<Rightarrow> action list \<Rightarrow> transport \<times> (sid \<times> message) list" where
  "dispatch tr [] = (tr, [])"
| "dispatch tr (Emit a m # acts) =
     (let (tr', ds) = dispatch tr acts in (tr', map (\<lambda>c. (c, m)) (recipients tr a) @ ds))"
| "dispatch tr (SocketJoin c x # acts) = dispatch (tr\<lparr>joined := joined tr @ [(c, x)]\<rparr>) acts"
| "dispatch tr (Ack c t # acts) = dispatch tr acts"

text \<open>
  Modelled from the spec: what the transport hands to the server, a new connection
  (\<open>io.on('connection')\<close>, which only logs and registers the handlers) or an event of
  an open socket.
\<close>

datatype net_event = Connection sid | Inbound event

text \<open>
  Modelled from the spec: a socket that disconnects has left every channel before its
  \<open>disconnect\<close> handler runs.
\<close>

definition leave_all :: "transport \<Rightarrow> sid \<Rightarrow> transport" where
  "leave_all tr c = tr\<lparr>live := removeAll c (live tr),
                    joined := filter (\<lambda>(d, x). d \<noteq> c) (joined tr)\<rparr>"

text \<open>
  Modelled from the spec: one step of server and transport together, returning the
  deliveries (receiving connection, message) in order.
\<close>

fun net_step :: "state \<times> transport \<Rightarrow> net_event \<Rightarrow> (state \<times> transport) \<times> (sid \<times> message) list" where
  "net_step (st, tr) (Connection c) = ((st, tr\<lparr>live := live tr @ [c]\<rparr>), [])"
| "net_step (st, tr) (Inbound ev) =
     (let tr0 = (case ev of Disconnect c \<Rightarrow> leave_all tr c | _ \<Rightarrow> tr);
          (st', acts) = step st ev;
          (tr', ds) = dispatch tr0 acts
      in ((st', tr'), ds))"

text \<open>
  Modelled from the spec: the state of server and transport after a sequence of transport
  events, starting with no room and no connection.
\<close>

definition net_exec :: "net_event list \<Rightarrow> state \<times> transport" where
  "net_exec evs = foldl (\<lambda>s e. fst (net_step s e)) (init, \<lparr>live = [], joined = []\<rparr>) evs"

section \<open>Invariants of the registry\<close>

definition room_slots_ok :: "room \<Rightarrow> bool" where
  "room_slots_ok r =
     (distinct (usedSlots r) \<and> set (usedSlots r) \<subseteq> {1..MAX_PLAYERS} \<and> length (players r) \<le> 4)"

definition slots_ok :: "state \<Rightarrow> bool" where
  "slots_ok st = (\<forall>(rid, r) \<in> set (rooms st). room_slots_ok r)"

definition rooms_nonempty :: "state \<Rightarrow> bool" where
  "rooms_nonempty st = (\<forall>(rid, r) \<in> set (rooms st). players r \<noteq> [])"

section \<open>Concrete sessions used to exercise the theorems\<close>

definition mk_req :: "string \<Rightarrow> string \<Rightarrow> string \<Rightarrow> join_req" where
  "mk_req rid nm ro = \<lparr>req_roomId = Some rid, req_playerName = Some nm, req_role = Some ro\<rparr>"

definition four_joined :: "event list" where
  "four_joined =
     [RoomJoin ''a'' (mk_req ''r1'' ''ann'' ''controller''),
      RoomJoin ''b'' (mk_req ''r1'' ''bob'' ''controller''),
      RoomJoin ''c'' (mk_req ''r1'' ''cy'' ''controller''),
      RoomJoin ''d'' (mk_req ''r1'' ''dee'' ''viewer'')]"

definition owner_and_pad :: "event list" where
  "owner_and_pad =
     [RoomJoin ''e'' (mk_req ''r1'' ''emu'' ''emulator''),
      RoomJoin ''b'' (mk_req ''r1'' ''bob'' ''controller'')]"

definition viewer_then_pad :: "event list" where
  "viewer_then_pad =
     [RoomJoin ''v'' (mk_req ''r1'' ''vic'' ''viewer''),
      RoomJoin ''c'' (mk_req ''r1'' ''cat'' ''controller'')]"

definition host_leaves :: "event list" where
  "host_leaves =
     [RoomJoin ''a'' (mk_req ''r1'' ''ann'' ''controller''),
      RoomJoin ''b'' (mk_req ''r1'' ''bob'' ''viewer''),
      RoomJoin ''c'' (mk_req ''r1'' ''cy'' ''controller''),
      RoomJoin ''d'' (mk_req ''r1'' ''dee'' ''viewer'')]"

definition two_left :: "event list" where
  "two_left =
     [RoomJoin ''a'' (mk_req ''r1'' ''ann'' ''controller''),
      RoomJoin ''b'' (mk_req ''r1'' ''bob'' ''controller''),
      RoomJoin ''c'' (mk_req ''r1'' ''cy'' ''controller''),
      Disconnect ''b'']"

definition pad_then_owner :: "event list" where
  "pad_then_owner =
     [RoomJoin ''b'' (mk_req ''r1'' ''bob'' ''controller''),
      RoomJoin ''e'' (mk_req ''r1'' ''emu'' ''emulator'')]"

definition spy_session :: "net_event list" where
  "spy_session =
     [Connection ''e'', Connection ''b'', Connection ''x'',
      Inbound (RoomJoin ''e'' (mk_req ''r1'' ''emu'' ''emulator'')),
      Inbound (RoomJoin ''b'' (mk_req ''r1'' ''bob'' ''controller'')),
      Inbound (RoomJoin ''x'' (mk_req ''e'' ''spy'' ''viewer''))]"

section \<open>Slot allocation\<close>

declare scanSlots.simps [simp del]



lemma scanSlots_Some:
  "scanSlots used s = Some r \<Longrightarrow>
     s \<le> r \<and> r \<le> MAX_PLAYERS \<and> r \<notin> set used \<and> (\<forall>t. s \<le> t \<and> t < r \<longrightarrow> t \<in> set used)"
proof (induction used s rule: scanSlots.induct)
  case (1 used s)
  show ?case
  proof (cases "s \<le> MAX_PLAYERS \<and> s \<in> set used")
    case True
    with "1.prems" have rec: "scanSlots used (s + 1) = Some r"
      by (simp add: scanSlots.simps [of used s])
    from True have "s \<le> MAX_PLAYERS" "\<not> s \<notin> set used" by simp_all
    from "1.IH" [OF this rec]
    have ih: "s + 1 \<le> r" "r \<le> MAX_PLAYERS" "r \<notin> set used"
      "\<forall>t. s + 1 \<le> t \<and> t < r \<longrightarrow> t \<in> set used" by simp_all
    have "\<forall>t. s \<le> t \<and> t < r \<longrightarrow> t \<in> set used"
    proof (intro allI impI)
      fix t assume t: "s \<le> t \<and> t < r"
      show "t \<in> set used"
      proof (cases "t = s")
        case True with \<open>\<not> s \<notin> set used\<close> show ?thesis by simp
      next
        case False
        with t have "s + 1 \<le> t \<and> t < r" by arith
        with ih(4) show ?thesis by blast
      qed
    qed
    with ih show ?thesis by simp
  next
    case False
    with "1.prems" show ?thesis
      by (auto simp: scanSlots.simps [of used s] split: if_splits)
  qed
qed

lemma scanSlots_None:
  "scanSlots used s = None \<Longrightarrow> s \<le> t \<Longrightarrow> t \<le> MAX_PLAYERS \<Longrightarrow> t \<in> set used"
proof (induction used s rule: scanSlots.induct)
  case (1 used s)
  from "1.prems" have sle: "s \<le> MAX_PLAYERS" by arith
  with "1.prems"(1) have sin: "\<not> s \<notin> set used" and rec: "scanSlots used (s + 1) = None"
    by (auto simp: scanSlots.simps [of used s] split: if_splits)
  show ?case
  proof (cases "t = s")
    case True with sin show ?thesis by simp
  next
    case False
    with "1.prems" have "s + 1 \<le> t" by arith
    from "1.IH" [OF sle sin rec this "1.prems"(3)] show ?thesis .
  qed
qed

lemma set_update_subset: "set (AList.update k v al) \<subseteq> insert (k, v) (set al)"
  by (induction al) auto

lemma set_delete_subset: "set (AList.delete k al) \<subseteq> set al"
  by (auto simp: AList.delete_eq)

lemma set_map_update_subset:
  "set (map f (AList.update k v al)) \<subseteq> insert (f (k, v)) (set (map f al))"
  using set_update_subset [of k v al] by auto

lemma distinct_map_update:
  "distinct (map f al) \<Longrightarrow> f (k, v) \<notin> set (map f al) \<Longrightarrow> distinct (map f (AList.update k v al))"
proof (induction al)
  case Nil
  then show ?case by simp
next
  case (Cons a al)
  show ?case
  proof (cases "fst a = k")
    case True
    with Cons.prems show ?thesis by auto
  next
    case False
    have "f a \<notin> set (map f (AList.update k v al))"
      using set_map_update_subset [of f k v al] Cons.prems by auto
    with False Cons show ?thesis by auto
  qed
qed

lemma distinct_map_delete:
  "distinct (map f al) \<Longrightarrow> distinct (map f (AList.delete k al))"
  by (simp add: AList.delete_eq distinct_map_filter)

lemma slots_length_bound:
  assumes "distinct (xs :: int list)" and "set xs \<subseteq> {1..MAX_PLAYERS}"
  shows "length xs \<le> 4"
proof -
  have "card (set xs) \<le> card {1..MAX_PLAYERS}"
    using assms(2) by (intro card_mono) auto
  then show ?thesis using assms(1) by (simp add: distinct_card MAX_PLAYERS_def)
qed

lemma assignSlot_empty: "players r = [] \<Longrightarrow> assignSlot r = Some 1"
  by (simp add: assignSlot_def usedSlots_def scanSlots.simps [of "[]" 1] MAX_PLAYERS_def)

lemma room_join_full:
  assumes "getOrCreateRoom (rooms st) (normRoomId (req_roomId rq)) = (rs1, r)"
    and "assignSlot r = None"
  shows "room_join st sock rq =
           (st\<lparr>rooms := rs1\<rparr>, [Emit (ToSocket sock) (RoomError ''Room is full (max 4 players).'')])"
  using assms by (simp add: room_join_def)

lemma room_join_success:
  assumes "getOrCreateRoom (rooms st) (normRoomId (req_roomId rq)) = (rs1, r)"
    and "assignSlot r = Some s"
  shows "fst (room_join st sock rq) =
           \<lparr>rooms = AList.update (normRoomId (req_roomId rq))
              (r\<lparr>players := AList.update sock
                   \<lparr>slot = s, name = or_str (req_playerName rq) (''Player '' @ show_int s),
                    role = or_str (req_role rq) ''controller''\<rparr> (players r),
                 host := (if players r = [] then Some sock else host r),
                 emulatorSocket := (if req_role rq = Some ''emulator'' then Some sock
                                    else emulatorSocket r)\<rparr>) rs1,
            sockets = AList.update sock
              \<lparr>sd_roomId = normRoomId (req_roomId rq), sd_slot = s,
               sd_isEmulator = (req_role rq = Some ''emulator'')\<rparr> (sockets st)\<rparr>"
  using assms by (simp add: room_join_def Let_def)

lemma disconnect_noop:
  assumes "map_of (sockets st) sock = None \<or>
           (\<exists>d. map_of (sockets st) sock = Some d \<and>
                (sd_roomId d = [] \<or> map_of (rooms st) (sd_roomId d) = None))"
  shows "disconnect st sock = (st, [])"
  using assms by (auto simp: disconnect_def)

lemma disconnect_last:
  assumes "map_of (sockets st) sock = Some d" and "sd_roomId d \<noteq> []"
    and "map_of (rooms st) (sd_roomId d) = Some r"
    and "AList.delete sock (players r) = []"
  shows "fst (disconnect st sock) = st\<lparr>rooms := AList.delete (sd_roomId d) (rooms st)\<rparr>"
  using assms by (simp add: disconnect_def Let_def)

lemma disconnect_remaining:
  assumes "map_of (sockets st) sock = Some d" and "sd_roomId d \<noteq> []"
    and "map_of (rooms st) (sd_roomId d) = Some r"
    and "AList.delete sock (players r) \<noteq> []"
  shows "fst (disconnect st sock) =
           st\<lparr>rooms := AList.update (sd_roomId d)
               (r\<lparr>players := AList.delete sock (players r),
                  emulatorSocket := (if emulatorSocket r = Some sock then None
                                     else emulatorSocket r),
                  host := (if host r = Some sock then nextHost (AList.delete sock (players r))
                           else host r)\<rparr>) (rooms st)\<rparr>"
  using assms by (simp add: disconnect_def Let_def)

lemma disconnect_cases:
  "fst (disconnect st sock) = st \<or>
   (\<exists>d r. map_of (sockets st) sock = Some d \<and> sd_roomId d \<noteq> [] \<and>
      map_of (rooms st) (sd_roomId d) = Some r \<and>
      (AList.delete sock (players r) = [] \<and>
         fst (disconnect st sock) = st\<lparr>rooms := AList.delete (sd_roomId d) (rooms st)\<rparr>
       \<or> AList.delete sock (players r) \<noteq> [] \<and>
         (\<exists>r'. players r' = AList.delete sock (players r) \<and>
            fst (disconnect st sock) = st\<lparr>rooms := AList.update (sd_roomId d) r' (rooms st)\<rparr>)))"
proof (cases "map_of (sockets st) sock")
  case None
  then show ?thesis by (simp add: disconnect_noop)
next
  case (Some d)
  show ?thesis
  proof (cases "sd_roomId d = [] \<or> map_of (rooms st) (sd_roomId d) = None")
    case True
    with Some show ?thesis by (simp add: disconnect_noop)
  next
    case False
    then obtain r where r: "sd_roomId d \<noteq> []" "map_of (rooms st) (sd_roomId d) = Some r"
      by auto
    show ?thesis
    proof (cases "AList.delete sock (players r) = []")
      case True
      from disconnect_last [OF Some r True] Some r True show ?thesis by simp
    next
      case False
      let ?r' = "r\<lparr>players := AList.delete sock (players r),
                  emulatorSocket := (if emulatorSocket r = Some sock then None
                                     else emulatorSocket r),
                  host := (if host r = Some sock then nextHost (AList.delete sock (players r))
                           else host r)\<rparr>"
      have "players ?r' = AList.delete sock (players r)" by simp
      with disconnect_remaining [OF Some r False] Some r False show ?thesis by blast
    qed
  qed
qed

lemma ball_update:
  "\<forall>(i, r) \<in> set rs. P r \<Longrightarrow> P v \<Longrightarrow> \<forall>(i, r) \<in> set (AList.update k v rs). P r"
  using set_update_subset [of k v rs] by auto

lemmas slots_update = ball_update [where P = room_slots_ok]

lemmas nonempty_update = ball_update [where P = "\<lambda>r. players r \<noteq> []"]

lemma ball_delete:
  "\<forall>(i, r) \<in> set rs. P r \<Longrightarrow> \<forall>(i, r) \<in> set (AList.delete k rs). P r"
  using set_delete_subset [of k rs] by auto

lemma room_slots_ok_delete:
  assumes "room_slots_ok r" and "players r' = AList.delete sock (players r)"
  shows "room_slots_ok r'"
proof -
  have u: "usedSlots r' = map (\<lambda>(k, p). slot p) (AList.delete sock (players r))"
    by (simp add: usedSlots_def assms(2))
  have d: "distinct (usedSlots r')"
    using assms(1) unfolding u by (simp add: room_slots_ok_def usedSlots_def distinct_map_delete)
  have s: "set (usedSlots r') \<subseteq> {1..MAX_PLAYERS}"
    using assms(1) set_delete_subset [of sock "players r"]
    unfolding u by (auto simp: room_slots_ok_def usedSlots_def)
  have "length (players r') = length (usedSlots r')" by (simp add: usedSlots_def)
  with slots_length_bound [OF d s] d s show ?thesis by (simp add: room_slots_ok_def)
qed

lemma room_slots_ok_join:
  assumes "room_slots_ok r" and "assignSlot r = Some s"
    and "players r' = AList.update sock p (players r)" and "slot p = s"
  shows "room_slots_ok r'"
proof -
  from assms(2) have s: "1 \<le> s" "s \<le> MAX_PLAYERS" "s \<notin> set (usedSlots r)"
    using scanSlots_Some [of "usedSlots r" 1 s] by (simp_all add: assignSlot_def)
  have u: "usedSlots r' = map (\<lambda>(k, p). slot p) (AList.update sock p (players r))"
    by (simp add: usedSlots_def assms(3))
  have d: "distinct (usedSlots r')"
    unfolding u using assms(1) s(3) assms(4)
    by (intro distinct_map_update) (simp_all add: room_slots_ok_def usedSlots_def)
  have "set (usedSlots r') \<subseteq> insert s (set (usedSlots r))"
    unfolding u using set_map_update_subset [of "\<lambda>(k, p). slot p" sock p "players r"] assms(4)
    by (simp add: usedSlots_def)
  moreover have "insert s (set (usedSlots r)) \<subseteq> {1..MAX_PLAYERS}"
    using assms(1) s by (simp add: room_slots_ok_def)
  ultimately have b: "set (usedSlots r') \<subseteq> {1..MAX_PLAYERS}"
    by (rule subset_trans)
  have "length (players r') = length (usedSlots r')" by (simp add: usedSlots_def)
  with slots_length_bound [OF d b] d b show ?thesis by (simp add: room_slots_ok_def)
qed

lemma room_slots_ok_newRoom: "room_slots_ok newRoom"
  by (simp add: room_slots_ok_def newRoom_def usedSlots_def)

lemma getOrCreateRoom_cases:
  assumes "getOrCreateRoom rs rid = (rs1, r)"
  shows "(map_of rs rid = Some r \<and> rs1 = rs) \<or>
         (map_of rs rid = None \<and> r = newRoom \<and> rs1 = AList.update rid newRoom rs)"
  using assms by (auto simp: getOrCreateRoom_def split: option.splits)


lemma room_slots_ok_players_cong: "players r' = players r \<Longrightarrow> room_slots_ok r' = room_slots_ok r"
  by (simp add: room_slots_ok_def usedSlots_def)

lemma getOrCreateRoom_pres:
  assumes "getOrCreateRoom rs rid = (rs1, r)"
    and all: "\<forall>(i, r) \<in> set rs. P r" and new: "P newRoom"
  shows "P r \<and> (\<forall>(i, r) \<in> set rs1. P r)"
proof (cases "map_of rs rid")
  case None
  with assms(1) have e: "r = newRoom" "rs1 = AList.update rid newRoom rs"
    by (simp_all add: getOrCreateRoom_def)
  show ?thesis unfolding e using new ball_update [of rs P, OF all new] by blast
next
  case (Some r0)
  with assms(1) have e: "r = r0" "rs1 = rs"
    by (simp_all add: getOrCreateRoom_def)
  from Some have "(rid, r0) \<in> set rs" by (rule map_of_SomeD)
  with all have "P r0" by blast
  then show ?thesis unfolding e using all by blast
qed

lemma slots_ok_room_join:
  assumes "slots_ok st"
  shows "slots_ok (fst (room_join st sock rq))"
proof -
  obtain rs1 r where g: "getOrCreateRoom (rooms st) (normRoomId (req_roomId rq)) = (rs1, r)"
    by (cases "getOrCreateRoom (rooms st) (normRoomId (req_roomId rq))")
  from assms have all: "\<forall>(i, r) \<in> set (rooms st). room_slots_ok r"
    by (simp add: slots_ok_def)
  from getOrCreateRoom_pres [where P = room_slots_ok, OF g all room_slots_ok_newRoom]
  have rok: "room_slots_ok r" and all1: "\<forall>(i, r) \<in> set rs1. room_slots_ok r"
    by blast+
  show ?thesis
  proof (cases "assignSlot r")
    case None
    have "fst (room_join st sock rq) = st\<lparr>rooms := rs1\<rparr>"
      by (simp add: room_join_full [OF g None])
    with all1 show ?thesis by (simp add: slots_ok_def)
  next
    case (Some s)
    let ?p = "\<lparr>slot = s, name = or_str (req_playerName rq) (''Player '' @ show_int s),
               role = or_str (req_role rq) ''controller''\<rparr>"
    let ?r' = "r\<lparr>players := AList.update sock ?p (players r),
                 host := (if players r = [] then Some sock else host r),
                 emulatorSocket := (if req_role rq = Some ''emulator'' then Some sock
                                    else emulatorSocket r)\<rparr>"
    have ok: "room_slots_ok ?r'"
      by (rule room_slots_ok_join [OF rok Some, of _ sock ?p]) simp_all
    have eq: "rooms (fst (room_join st sock rq)) = AList.update (normRoomId (req_roomId rq)) ?r' rs1"
      by (simp only: room_join_success [OF g Some] state.select_convs)
    show ?thesis unfolding slots_ok_def eq by (rule slots_update [OF all1 ok])
  qed
qed

lemma rooms_nonempty_room_join:
  assumes "rooms_nonempty st"
  shows "rooms_nonempty (fst (room_join st sock rq))"
proof -
  let ?rid = "normRoomId (req_roomId rq)"
  obtain rs1 r where g: "getOrCreateRoom (rooms st) ?rid = (rs1, r)"
    by (cases "getOrCreateRoom (rooms st) ?rid")
  from assms have all: "\<forall>(i, r) \<in> set (rooms st). players r \<noteq> []"
    by (simp add: rooms_nonempty_def)
  show ?thesis
  proof (cases "assignSlot r")
    case None
    have "r \<noteq> newRoom"
      using None assignSlot_empty [of newRoom] by (auto simp: newRoom_def)
    with getOrCreateRoom_cases [OF g] have "rs1 = rooms st" by auto
    with room_join_full [OF g None] assms show ?thesis by simp
  next
    case (Some s)
    let ?p = "\<lparr>slot = s, name = or_str (req_playerName rq) (''Player '' @ show_int s),
               role = or_str (req_role rq) ''controller''\<rparr>"
    let ?r' = "r\<lparr>players := AList.update sock ?p (players r),
                 host := (if players r = [] then Some sock else host r),
                 emulatorSocket := (if req_role rq = Some ''emulator'' then Some sock
                                    else emulatorSocket r)\<rparr>"
    have ne: "players ?r' \<noteq> []" by simp
    have "AList.update ?rid ?r' rs1 = AList.update ?rid ?r' (rooms st)"
      using getOrCreateRoom_cases [OF g] by auto
    then have eq: "rooms (fst (room_join st sock rq)) = AList.update ?rid ?r' (rooms st)"
      by (simp only: room_join_success [OF g Some] state.select_convs)
    show ?thesis unfolding rooms_nonempty_def eq by (rule nonempty_update [OF all ne])
  qed
qed

lemma slots_ok_disconnect:
  assumes "slots_ok st"
  shows "slots_ok (fst (disconnect st sock))"
proof -
  from assms have all: "\<forall>(i, r) \<in> set (rooms st). room_slots_ok r"
    by (simp add: slots_ok_def)
  from disconnect_cases [of st sock] show ?thesis
  proof (elim disjE exE conjE)
    assume "fst (disconnect st sock) = st"
    with assms show ?thesis by simp
  next
    fix d r
    assume "fst (disconnect st sock) = st\<lparr>rooms := AList.delete (sd_roomId d) (rooms st)\<rparr>"
    with ball_delete [where P = room_slots_ok, OF all] show ?thesis by (simp add: slots_ok_def)
  next
    fix d r r'
    assume r: "map_of (rooms st) (sd_roomId d) = Some r"
      and p: "players r' = AList.delete sock (players r)"
      and e: "fst (disconnect st sock) = st\<lparr>rooms := AList.update (sd_roomId d) r' (rooms st)\<rparr>"
    from r all have "room_slots_ok r" by (auto dest: map_of_SomeD)
    from room_slots_ok_delete [OF this p] have "room_slots_ok r'" .
    from slots_update [OF all this] e show ?thesis
      by (simp add: slots_ok_def)
  qed
qed

lemma rooms_nonempty_disconnect:
  assumes "rooms_nonempty st"
  shows "rooms_nonempty (fst (disconnect st sock))"
proof -
  from assms have all: "\<forall>(i, r) \<in> set (rooms st). players r \<noteq> []"
    by (simp add: rooms_nonempty_def)
  from disconnect_cases [of st sock] show ?thesis
  proof (elim disjE exE conjE)
    assume "fst (disconnect st sock) = st"
    with assms show ?thesis by simp
  next
    fix d r
    assume "fst (disconnect st sock) = st\<lparr>rooms := AList.delete (sd_roomId d) (rooms st)\<rparr>"
    with ball_delete [where P = "\<lambda>r. players r \<noteq> []", OF all] show ?thesis
      by (simp add: rooms_nonempty_def)
  next
    fix d r r'
    assume "AList.delete sock (players r) \<noteq> []" "players r' = AList.delete sock (players r)"
      and e: "fst (disconnect st sock) = st\<lparr>rooms := AList.update (sd_roomId d) r' (rooms st)\<rparr>"
    then have "players r' \<noteq> []" by simp
    from nonempty_update [OF all this] e show ?thesis
      by (simp add: rooms_nonempty_def)
  qed
qed

lemma room_setrom_noop:
  assumes "map_of (sockets st) sock = None \<or>
           (\<exists>d. map_of (sockets st) sock = Some d \<and> map_of (rooms st) (sd_roomId d) = None)"
  shows "room_setrom st sock rn = (st, [])"
  using assms by (auto simp: room_setrom_def)

lemma room_setrom_set:
  assumes "map_of (sockets st) sock = Some d" and "map_of (rooms st) (sd_roomId d) = Some r"
  shows "room_setrom st sock rn =
           (st\<lparr>rooms := AList.update (sd_roomId d)
                 (r\<lparr>romName := Some (take 80 (or_str rn []))\<rparr>) (rooms st)\<rparr>,
            broadcastRoomList (AList.update (sd_roomId d)
                 (r\<lparr>romName := Some (take 80 (or_str rn []))\<rparr>) (rooms st)))"
  using assms by (simp add: room_setrom_def Let_def)

lemma room_setrom_rooms:
  "fst (room_setrom st sock rn) = st \<or>
   (\<exists>rid r r'. map_of (rooms st) rid = Some r \<and> players r' = players r \<and>
      fst (room_setrom st sock rn) = st\<lparr>rooms := AList.update rid r' (rooms st)\<rparr>)"
proof (cases "map_of (sockets st) sock")
  case None
  then show ?thesis by (simp add: room_setrom_noop)
next
  case (Some d)
  show ?thesis
  proof (cases "map_of (rooms st) (sd_roomId d)")
    case None
    with Some show ?thesis by (simp add: room_setrom_noop)
  next
    case r: (Some r)
    have "players (r\<lparr>romName := Some (take 80 (or_str rn []))\<rparr>) = players r" by simp
    with r room_setrom_set [OF Some r, of rn] show ?thesis
      by (metis fst_conv)
  qed
qed

lemma slots_ok_room_setrom:
  assumes "slots_ok st"
  shows "slots_ok (fst (room_setrom st sock rn))"
proof -
  from assms have all: "\<forall>(i, r) \<in> set (rooms st). room_slots_ok r"
    by (simp add: slots_ok_def)
  from room_setrom_rooms [of st sock rn] show ?thesis
  proof (elim disjE exE conjE)
    assume "fst (room_setrom st sock rn) = st"
    with assms show ?thesis by simp
  next
    fix rid r r'
    assume r: "map_of (rooms st) rid = Some r" and p: "players r' = players r"
      and e: "fst (room_setrom st sock rn) = st\<lparr>rooms := AList.update rid r' (rooms st)\<rparr>"
    from r all have "room_slots_ok r" by (auto dest: map_of_SomeD)
    with room_slots_ok_players_cong [OF p] have "room_slots_ok r'" by (simp only:)
    from slots_update [OF all this] e show ?thesis by (simp add: slots_ok_def)
  qed
qed

lemma rooms_nonempty_room_setrom:
  assumes "rooms_nonempty st"
  shows "rooms_nonempty (fst (room_setrom st sock rn))"
proof -
  from assms have all: "\<forall>(i, r) \<in> set (rooms st). players r \<noteq> []"
    by (simp add: rooms_nonempty_def)
  from room_setrom_rooms [of st sock rn] show ?thesis
  proof (elim disjE exE conjE)
    assume "fst (room_setrom st sock rn) = st"
    with assms show ?thesis by simp
  next
    fix rid r r'
    assume r: "map_of (rooms st) rid = Some r" and p: "players r' = players r"
      and e: "fst (room_setrom st sock rn) = st\<lparr>rooms := AList.update rid r' (rooms st)\<rparr>"
    from r all have "players r \<noteq> []" by (auto dest: map_of_SomeD)
    with p have "players r' \<noteq> []" by simp
    from nonempty_update [OF all this] e show ?thesis by (simp add: rooms_nonempty_def)
  qed
qed

lemma cleanup_clean:
  assumes "rooms_nonempty st"
  shows "cleanup st = (st, [])"
proof -
  have "filter (\<lambda>(rid, r). length (players r) \<noteq> 0) (rooms st) = rooms st"
    using assms by (auto simp: rooms_nonempty_def filter_id_conv)
  then show ?thesis by (simp add: cleanup_def)
qed

lemma slots_ok_cleanup: "slots_ok st \<Longrightarrow> slots_ok (fst (cleanup st))"
  by (auto simp: slots_ok_def cleanup_def Let_def)

lemma joypad_input_state: "fst (joypad_input st c p) = st"
  by (simp add: joypad_input_def Let_def split: option.split)

lemma emu_frame_state: "fst (emu_frame st c b) = st"
  by (simp add: emu_frame_def split: option.split)

lemma emu_savestate_state: "fst (emu_savestate st c b) = st"
  by (simp add: emu_savestate_def split: option.split)

lemma emulator_game_started_state: "fst (emulator_game_started st c) = st"
  by (simp add: emulator_game_started_def split: option.split)

lemma webrtc_request_offer_state: "fst (webrtc_request_offer st c) = st"
  by (simp add: webrtc_request_offer_def split: option.split)

lemma chat_msg_state: "fst (chat_msg st c txt) = st"
  by (simp add: chat_msg_def split: option.split)

lemma relay_state:
  "fst (webrtc_offer st c to b) = st" "fst (webrtc_answer st c to b) = st"
  "fst (webrtc_ice st c to b) = st" "fst (perf_ping st c a t) = st"
  by (simp_all add: webrtc_offer_def webrtc_answer_def webrtc_ice_def perf_ping_def)

lemmas passive_handlers = joypad_input_state emu_frame_state emu_savestate_state
  emulator_game_started_state webrtc_request_offer_state chat_msg_state relay_state

lemma slots_ok_step: "slots_ok st \<Longrightarrow> slots_ok (fst (step st ev))"
  by (cases ev)
    (simp_all add: passive_handlers slots_ok_room_join slots_ok_disconnect
      slots_ok_room_setrom slots_ok_cleanup)

lemma rooms_nonempty_step: "rooms_nonempty st \<Longrightarrow> rooms_nonempty (fst (step st ev))"
  by (cases ev)
    (simp_all add: passive_handlers rooms_nonempty_room_join rooms_nonempty_disconnect
      rooms_nonempty_room_setrom cleanup_clean)

lemma exec_snoc: "exec (evs @ [ev]) = fst (step (exec evs) ev)"
  by (simp add: exec_def)

lemma slots_ok_exec: "slots_ok (exec evs)"
proof (induction evs rule: rev_induct)
  case Nil
  show ?case by (simp add: exec_def init_def slots_ok_def)
next
  case (snoc ev evs)
  then show ?case by (simp add: exec_snoc slots_ok_step)
qed

lemma rooms_nonempty_exec: "rooms_nonempty (exec evs)"
proof (induction evs rule: rev_induct)
  case Nil
  show ?case by (simp add: exec_def init_def rooms_nonempty_def)
next
  case (snoc ev evs)
  then show ?case by (simp add: exec_snoc rooms_nonempty_step)
qed


lemma full_room_no_slot:
  assumes "room_slots_ok r" and "length (players r) = 4"
  shows "assignSlot r = None"
proof (cases "assignSlot r")
  case None
  then show ?thesis .
next
  case (Some s)
  then have s: "1 \<le> s" "s \<le> MAX_PLAYERS" "s \<notin> set (usedSlots r)"
    using scanSlots_Some [of "usedSlots r" 1 s] by (simp_all add: assignSlot_def)
  from assms have d: "distinct (usedSlots r)" and b: "set (usedSlots r) \<subseteq> {1..MAX_PLAYERS}"
    and l: "length (usedSlots r) = 4"
    by (simp_all add: room_slots_ok_def usedSlots_def)
  have "card (set (usedSlots r)) = card {1..MAX_PLAYERS}"
    using d l by (simp add: distinct_card MAX_PLAYERS_def)
  with b have "set (usedSlots r) = {1..MAX_PLAYERS}"
    by (intro card_subset_eq) simp_all
  with s show ?thesis by simp
qed

lemma room_join_full_inv:
  assumes "slots_ok st" and "map_of (rooms st) (normRoomId (req_roomId rq)) = Some r"
    and "length (players r) = 4"
  shows "room_join st sock rq =
           (st, [Emit (ToSocket sock) (RoomError ''Room is full (max 4 players).'')])"
proof -
  from assms(2) have "(normRoomId (req_roomId rq), r) \<in> set (rooms st)"
    by (rule map_of_SomeD)
  with assms(1) have "room_slots_ok r" by (auto simp: slots_ok_def)
  then have n: "assignSlot r = None" using assms(3) by (rule full_room_no_slot)
  have g: "getOrCreateRoom (rooms st) (normRoomId (req_roomId rq)) = (rooms st, r)"
    using assms(2) by (simp add: getOrCreateRoom_def)
  show ?thesis by (simp add: room_join_full [OF g n])
qed

section \<open>Capacity, slot uniqueness and non-empty rooms\<close>

text \<open>
  C1. In every state reachable from the empty registry by any sequence of events, and for
  every room of the registry, the slots of the participants are pairwise distinct, every
  slot lies in \<open>{1..4}\<close> and the room holds at most four participants; every
  handler (join, disconnect, cleanup sweep and all the others) preserves this.
\<close>

theorem slots_invariant:
  "slots_ok (exec evs) \<and> (slots_ok st \<longrightarrow> slots_ok (fst (step st ev)))"
  by (simp add: slots_ok_exec slots_ok_step)

theorem slots_invariant_witness:
  "slots_ok (exec four_joined) \<and>
   map (\<lambda>(rid, r). usedSlots r) (rooms (exec four_joined)) = [[1, 2, 3, 4]] \<and>
   slots_ok (exec (four_joined @ [Disconnect ''b''])) \<and>
   slots_ok (fst (step (exec (four_joined @ [Disconnect ''b'']))
                    (RoomJoin ''e'' (mk_req ''r1'' ''eve'' ''controller'')))) \<and>
   map (\<lambda>(rid, r). usedSlots r)
     (rooms (fst (step (exec (four_joined @ [Disconnect ''b'']))
                    (RoomJoin ''e'' (mk_req ''r1'' ''eve'' ''controller''))))) = [[1, 3, 4, 2]]"
proof -
  have h: "slots_ok (exec (four_joined @ [Disconnect ''b'']))" by code_simp
  have v: "map (\<lambda>(rid, r). usedSlots r) (rooms (exec four_joined)) = [[1, 2, 3, 4]]"
    "map (\<lambda>(rid, r). usedSlots r)
     (rooms (fst (step (exec (four_joined @ [Disconnect ''b'']))
                    (RoomJoin ''e'' (mk_req ''r1'' ''eve'' ''controller''))))) = [[1, 3, 4, 2]]"
    by code_simp+
  from slots_invariant [of four_joined "exec (four_joined @ [Disconnect ''b''])"
      "RoomJoin ''e'' (mk_req ''r1'' ''eve'' ''controller'')"] h v
  show ?thesis by simp
qed

text \<open>
  C2. In a reachable state, a join request whose normalised room identifier names a room
  with four participants returns the registry and the per-socket data exactly unchanged
  and emits one message only: the room-full error, to the requesting socket.
\<close>

theorem join_full_rejected:
  assumes "map_of (rooms (exec evs)) (normRoomId (req_roomId rq)) = Some r"
    and "length (players r) = 4"
  shows "room_join (exec evs) sock rq =
           (exec evs, [Emit (ToSocket sock) (RoomError ''Room is full (max 4 players).'')])"
  using slots_ok_exec assms by (rule room_join_full_inv)

theorem join_full_rejected_witness:
  "map_option (\<lambda>r. length (players r))
     (map_of (rooms (exec four_joined)) (normRoomId (req_roomId (mk_req ''r1'' ''eve'' ''controller''))))
     = Some 4 \<and>
   room_join (exec four_joined) ''e'' (mk_req ''r1'' ''eve'' ''controller'') =
     (exec four_joined, [Emit (ToSocket ''e'') (RoomError ''Room is full (max 4 players).'')])"
proof -
  let ?rq = "mk_req ''r1'' ''eve'' ''controller''"
  obtain r where r: "map_of (rooms (exec four_joined)) (normRoomId (req_roomId ?rq)) = Some r"
    and l: "length (players r) = 4"
  proof -
    have "map_option (\<lambda>r. length (players r))
       (map_of (rooms (exec four_joined)) (normRoomId (req_roomId ?rq))) = Some 4"
      by code_simp
    then show ?thesis using that by (auto simp: map_option_case split: option.splits)
  qed
  from join_full_rejected [OF r l, of "''e''"] r l show ?thesis by simp
qed

text \<open>
  C10. After every handler every room of the registry has at least one participant (the
  property holds in all reachable states and is preserved by every step); hence the
  cleanup sweep of a reachable state removes nothing and broadcasts nothing.
\<close>

theorem rooms_never_empty:
  "rooms_nonempty (exec evs) \<and>
   (rooms_nonempty st \<longrightarrow> rooms_nonempty (fst (step st ev))) \<and>
   cleanup (exec evs) = (exec evs, [])"
  by (simp add: rooms_nonempty_exec rooms_nonempty_step cleanup_clean)

theorem rooms_never_empty_witness:
  "rooms_nonempty (exec (four_joined @ [Disconnect ''a'', Disconnect ''b'', Disconnect ''c''])) \<and>
   rooms (exec (four_joined @ [Disconnect ''a'', Disconnect ''b'', Disconnect ''c''])) \<noteq> [] \<and>
   rooms_nonempty (fst (step (exec (four_joined @ [Disconnect ''a'', Disconnect ''b'', Disconnect ''c'']))
                          (Disconnect ''d''))) \<and>
   rooms (fst (step (exec (four_joined @ [Disconnect ''a'', Disconnect ''b'', Disconnect ''c'']))
                          (Disconnect ''d''))) = [] \<and>
   cleanup (exec (four_joined @ [Disconnect ''a'', Disconnect ''b'', Disconnect ''c''])) =
     (exec (four_joined @ [Disconnect ''a'', Disconnect ''b'', Disconnect ''c'']), [])"
proof -
  let ?evs = "four_joined @ [Disconnect ''a'', Disconnect ''b'', Disconnect ''c'']"
  have h: "rooms_nonempty (exec ?evs)" by code_simp
  have v: "rooms (exec ?evs) \<noteq> []" "rooms (fst (step (exec ?evs) (Disconnect ''d''))) = []"
    by code_simp+
  from rooms_never_empty [of ?evs "exec ?evs" "Disconnect ''d''"] h v
  show ?thesis by simp
qed

section \<open>Routing, relay and label\<close>


lemma joypad_input_drop:
  assumes "rid = or_str (map_option sd_roomId (map_of (sockets st) sock)) (or_str (pl_roomId p) [])"
    and "slt = or_num (or_num (map_option sd_slot (map_of (sockets st) sock)) (pl_slot p)) None"
    and "rid = [] \<or> slt = None \<or> map_of (rooms st) rid = None \<or>
         (\<exists>r. map_of (rooms st) rid = Some r \<and>
              \<not> truthy_str (emulatorSocket r) \<and> \<not> truthy_str (host r))"
  shows "joypad_input st sock p = (st, [])"
  using assms by (auto simp: joypad_input_def Let_def or_ref_def split: option.splits)

lemma joypad_input_route:
  assumes "rid = or_str (map_option sd_roomId (map_of (sockets st) sock)) (or_str (pl_roomId p) [])"
    and "or_num (or_num (map_option sd_slot (map_of (sockets st) sock)) (pl_slot p)) None = Some n"
    and "rid \<noteq> []" and "map_of (rooms st) rid = Some r"
    and "or_ref (emulatorSocket r) (host r) = Some t" and "t \<noteq> []"
  shows "joypad_input st sock p =
           (st, [Emit (IoTo t) (JoypadState n (toUint32 (pl_buttons p))
                   (case pl_axes p of Some a \<Rightarrow> a | None \<Rightarrow> Axes 0 0))])"
  using assms by (simp add: joypad_input_def Let_def truthy_str_def or_str_def)

text \<open>
  C3. The handler addresses the routed control event with \<open>io.to\<close> to the
  identifier of the owner, and the transport delivers it to every live member of the
  channel of that name. In the session where \<open>x\<close> has joined a room whose identifier
  is the connection identifier \<open>e\<close> of the owner of \<open>r1\<close>, the control event of
  \<open>b\<close> is emitted once, to \<open>e\<close>, and delivered to \<open>e\<close> and to \<open>x\<close>:
  the event does not reach exactly the one connection of the owner (the source comments
  the emission with "Route ONLY to the emulator host").
\<close>

theorem joypad_leak:
  "map_option emulatorSocket (map_of (rooms (fst (net_exec spy_session))) ''r1'') = Some (Some ''e'') \<and>
   snd (net_exec spy_session)
     = \<lparr>live = [''e'', ''b'', ''x''],
        joined = [(''e'', ''r1''), (''b'', ''r1''), (''x'', ''e'')]\<rparr> \<and>
   snd (step (fst (net_exec spy_session)) (JoypadInput ''b''
          \<lparr>pl_buttons = Some 5, pl_axes = None, pl_roomId = Some ''r1'', pl_slot = Some 2\<rparr>))
     = [Emit (IoTo ''e'') (JoypadState 2 5 (Axes 0 0))] \<and>
   snd (net_step (net_exec spy_session) (Inbound (JoypadInput ''b''
          \<lparr>pl_buttons = Some 5, pl_axes = None, pl_roomId = Some ''r1'', pl_slot = Some 2\<rparr>)))
     = [(''e'', JoypadState 2 5 (Axes 0 0)), (''x'', JoypadState 2 5 (Axes 0 0))]"
  by code_simp

text \<open>
  C6 as stated fails: controller \<open>b\<close> sends the mask \<open>-1\<close> and no axes; the
  message forwarded to the owner \<open>e\<close> carries the mask \<open>4294967295\<close> and the
  axes \<open>(0, 0)\<close>.
\<close>

theorem joypad_payload_counterexample:
  "snd (joypad_input (exec owner_and_pad) ''b''
          \<lparr>pl_buttons = Some (- 1), pl_axes = None, pl_roomId = Some ''r1'', pl_slot = Some 2\<rparr>)
     = [Emit (IoTo ''e'') (JoypadState 2 4294967295 (Axes 0 0))]"
  by code_simp

text \<open>
  C6 (amended). Whenever the joypad handler emits, it emits one message, addressed to the
  owner (or host) of the sender's room, that carries: as slot tag the slot the server
  tracks for the sender, or the slot declared in the payload when the server tracks none;
  the received buttons reduced to an unsigned 32-bit integer (\<open>0\<close> when absent); and
  the received axes (\<open>{x: 0, y: 0}\<close> when absent). For a mask within
  \<open>0 .. 2^32 - 1\<close> sent together with axes, buttons and axes are exactly those
  received.
\<close>

theorem joypad_payload_forwarded:
  assumes "Emit adr m \<in> set (snd (joypad_input st sock p))"
  shows "\<exists>n r t.
           or_num (or_num (map_option sd_slot (map_of (sockets st) sock)) (pl_slot p)) None
             = Some n \<and>
           (\<forall>d. map_of (sockets st) sock = Some d \<and> sd_slot d \<noteq> 0 \<longrightarrow> n = sd_slot d) \<and>
           (map_of (sockets st) sock = None \<longrightarrow> pl_slot p = Some n) \<and>
           map_of (rooms st)
             (or_str (map_option sd_roomId (map_of (sockets st) sock)) (or_str (pl_roomId p) []))
             = Some r \<and>
           or_ref (emulatorSocket r) (host r) = Some t \<and>
           snd (joypad_input st sock p) = [Emit (IoTo t) m] \<and> adr = IoTo t \<and>
           m = JoypadState n (case pl_buttons p of None \<Rightarrow> 0 | Some b \<Rightarrow> b mod 2 ^ 32)
                 (case pl_axes p of None \<Rightarrow> Axes 0 0 | Some a \<Rightarrow> a) \<and>
           (\<forall>b a. pl_buttons p = Some b \<and> 0 \<le> b \<and> b < 2 ^ 32 \<and> pl_axes p = Some a
                \<longrightarrow> m = JoypadState n b a)"
proof -
  let ?slt = "or_num (or_num (map_option sd_slot (map_of (sockets st) sock)) (pl_slot p)) None"
  let ?rid = "or_str (map_option sd_roomId (map_of (sockets st) sock)) (or_str (pl_roomId p) [])"
  let ?m = "\<lambda>n. JoypadState n (toUint32 (pl_buttons p))
                  (case pl_axes p of Some a \<Rightarrow> a | None \<Rightarrow> Axes 0 0)"
  from assms obtain n r t where n: "?slt = Some n" and r: "map_of (rooms st) ?rid = Some r"
    and t: "or_ref (emulatorSocket r) (host r) = Some t"
    and out: "snd (joypad_input st sock p) = [Emit (IoTo t) (?m n)]"
    by (auto simp: joypad_input_def Let_def truthy_str_def or_str_def
        split: option.splits if_splits)
  from assms out have adr: "adr = IoTo t" and m: "m = ?m n" by simp_all
  have m': "m = JoypadState n (case pl_buttons p of None \<Rightarrow> 0 | Some b \<Rightarrow> b mod 2 ^ 32)
                   (case pl_axes p of None \<Rightarrow> Axes 0 0 | Some a \<Rightarrow> a)"
    unfolding m by (simp add: toUint32_def split: option.splits)
  then have exact: "\<forall>b a. pl_buttons p = Some b \<and> 0 \<le> b \<and> b < 2 ^ 32 \<and> pl_axes p = Some a
                  \<longrightarrow> m = JoypadState n b a"
    by simp
  have s1: "\<forall>d. map_of (sockets st) sock = Some d \<and> sd_slot d \<noteq> 0 \<longrightarrow> n = sd_slot d"
    using n by (auto simp: or_num_def)
  have s2: "map_of (sockets st) sock = None \<longrightarrow> pl_slot p = Some n"
    using n by (auto simp: or_num_def split: option.splits if_splits)
  have out': "snd (joypad_input st sock p) = [Emit (IoTo t) m]"
    using out m by simp
  show ?thesis
    by (rule exI [of _ n], rule exI [of _ r], rule exI [of _ t])
      (intro conjI n s1 s2 r t out' adr m' exact)
qed

theorem joypad_payload_forwarded_witness:
  "map_option (\<lambda>r. (host r, emulatorSocket r)) (map_of (rooms (exec pad_then_owner)) ''r1'')
     = Some (Some ''b'', Some ''e'') \<and>
   snd (joypad_input (exec pad_then_owner) ''b''
          \<lparr>pl_buttons = Some 2049, pl_axes = Some (Axes (1 / 2) (- 1)), pl_roomId = None,
           pl_slot = Some 4\<rparr>)
     = [Emit (IoTo ''e'') (JoypadState 1 2049 (Axes (1 / 2) (- 1)))] \<and>
   snd (joypad_input (exec pad_then_owner) ''zz''
          \<lparr>pl_buttons = Some 2049, pl_axes = Some (Axes (1 / 2) (- 1)), pl_roomId = Some ''r1'',
           pl_slot = Some 4\<rparr>)
     = [Emit (IoTo ''e'') (JoypadState 4 2049 (Axes (1 / 2) (- 1)))]"
proof -
  let ?st = "exec pad_then_owner"
  let ?ax = "Axes (1 / 2) (- 1)"
  let ?p = "\<lparr>pl_buttons = Some 2049, pl_axes = Some ?ax, pl_roomId = None, pl_slot = Some 4\<rparr>"
  let ?q = "\<lparr>pl_buttons = Some 2049, pl_axes = Some ?ax, pl_roomId = Some ''r1'',
             pl_slot = Some 4\<rparr>"
  have own: "map_option (\<lambda>r. (host r, emulatorSocket r)) (map_of (rooms ?st) ''r1'')
     = Some (Some ''b'', Some ''e'')"
    and sb: "map_option sd_slot (map_of (sockets ?st) ''b'') = Some 1"
    and sz: "map_of (sockets ?st) ''zz'' = None"
    by code_simp+
  have hb: "Emit (IoTo ''e'') (JoypadState 1 2049 ?ax) \<in> set (snd (joypad_input ?st ''b'' ?p))"
    and hz: "Emit (IoTo ''e'') (JoypadState 4 2049 ?ax) \<in> set (snd (joypad_input ?st ''zz'' ?q))"
    by code_simp+
  from joypad_payload_forwarded [OF hb] obtain t m where
    "snd (joypad_input ?st ''b'' ?p) = [Emit (IoTo t) m]" by blast
  with hb have 1: "snd (joypad_input ?st ''b'' ?p) = [Emit (IoTo ''e'') (JoypadState 1 2049 ?ax)]"
    by simp
  from joypad_payload_forwarded [OF hz] obtain t m where
    "snd (joypad_input ?st ''zz'' ?q) = [Emit (IoTo t) m]" by blast
  with hz have 2: "snd (joypad_input ?st ''zz'' ?q) = [Emit (IoTo ''e'') (JoypadState 4 2049 ?ax)]"
    by simp
  from own 1 2 show ?thesis by blast
qed

lemma relay_emission:
  "step st (WebrtcOfferEv sock to b) = (st, [Emit (IoTo to) (WebrtcOffer sock b)]) \<and>
   step st (WebrtcAnswerEv sock to b) = (st, [Emit (IoTo to) (WebrtcAnswer sock b)]) \<and>
   step st (WebrtcIceEv sock to b) = (st, [Emit (IoTo to) (WebrtcIce sock b)])"
  by (simp add: webrtc_offer_def webrtc_answer_def webrtc_ice_def)

lemma relay_delivery:
  "dispatch tr (snd (step st (WebrtcOfferEv sock to b)))
     = (tr, map (\<lambda>c. (c, WebrtcOffer sock b)) (filter (in_channel tr to) (live tr)))"
  by (simp add: webrtc_offer_def)

text \<open>
  C9. Each signalling handler emits \<open>{from, payload}\<close> unchanged once, with
  \<open>io.to(to)\<close>, and the transport delivers it to every live member of the channel
  named \<open>to\<close>. In the session where \<open>x\<close> has joined a room whose identifier is
  the connection identifier \<open>e\<close>, an offer and an answer of \<open>b\<close> for \<open>e\<close>
  are delivered to \<open>e\<close> and to \<open>x\<close>; a candidate for \<open>r1\<close>, which is no
  connection, is not dropped but delivered to both members of that room, the sender
  included; a candidate for an identifier that names no channel with a live member is
  dropped.
\<close>

theorem relay_leak:
  "snd (net_exec spy_session)
     = \<lparr>live = [''e'', ''b'', ''x''],
        joined = [(''e'', ''r1''), (''b'', ''r1''), (''x'', ''e'')]\<rparr> \<and>
   snd (net_step (net_exec spy_session) (Inbound (WebrtcOfferEv ''b'' ''e'' ''sdp'')))
     = [(''e'', WebrtcOffer ''b'' ''sdp''), (''x'', WebrtcOffer ''b'' ''sdp'')] \<and>
   snd (net_step (net_exec spy_session) (Inbound (WebrtcAnswerEv ''b'' ''e'' ''sdp'')))
     = [(''e'', WebrtcAnswer ''b'' ''sdp''), (''x'', WebrtcAnswer ''b'' ''sdp'')] \<and>
   snd (net_step (net_exec spy_session) (Inbound (WebrtcIceEv ''b'' ''r1'' ''cand'')))
     = [(''e'', WebrtcIce ''b'' ''cand''), (''b'', WebrtcIce ''b'' ''cand'')] \<and>
   snd (net_step (net_exec spy_session) (Inbound (WebrtcIceEv ''b'' ''gone'' ''cand''))) = []"
  by code_simp

text \<open>
  C5 as stated fails: in room \<open>r1\<close>, whose owner and host is \<open>e\<close>, the set-label
  message of controller \<open>b\<close> changes the label from none to \<open>Zelda\<close>.
\<close>

theorem setrom_non_owner_counterexample:
  "map_option emulatorSocket (map_of (rooms (exec owner_and_pad)) ''r1'') = Some (Some ''e'') \<and>
   map_option host (map_of (rooms (exec owner_and_pad)) ''r1'') = Some (Some ''e'') \<and>
   map_option romName (map_of (rooms (exec owner_and_pad)) ''r1'') = Some None \<and>
   map_option romName
     (map_of (rooms (fst (room_setrom (exec owner_and_pad) ''b'' (Some ''Zelda'')))) ''r1'')
     = Some (Some ''Zelda'')"
  by code_simp

text \<open>
  C5 (amended). A set-label message from any connection whose tracked room is in the
  registry, owner or not, sets that room's label to the first 80 characters of the given
  name (the empty string when absent) and emits the directory of the updated registry;
  from a connection that never joined, or whose tracked room is gone, it changes nothing
  and emits nothing.
\<close>

theorem setrom_any_member:
  "(\<forall>d r. map_of (sockets st) sock = Some d \<and> map_of (rooms st) (sd_roomId d) = Some r \<longrightarrow>
      map_option romName (map_of (rooms (fst (room_setrom st sock rn))) (sd_roomId d))
        = Some (Some (take 80 (or_str rn []))) \<and>
      snd (room_setrom st sock rn) = broadcastRoomList (rooms (fst (room_setrom st sock rn)))) \<and>
   (map_of (sockets st) sock = None \<or>
    (\<exists>d. map_of (sockets st) sock = Some d \<and> map_of (rooms st) (sd_roomId d) = None) \<longrightarrow>
      room_setrom st sock rn = (st, []))"
proof (intro conjI allI impI)
  fix d r
  assume a: "map_of (sockets st) sock = Some d \<and> map_of (rooms st) (sd_roomId d) = Some r"
  then have e: "room_setrom st sock rn =
           (st\<lparr>rooms := AList.update (sd_roomId d)
                 (r\<lparr>romName := Some (take 80 (or_str rn []))\<rparr>) (rooms st)\<rparr>,
            broadcastRoomList (AList.update (sd_roomId d)
                 (r\<lparr>romName := Some (take 80 (or_str rn []))\<rparr>) (rooms st)))"
    by (simp add: room_setrom_set)
  show "map_option romName (map_of (rooms (fst (room_setrom st sock rn))) (sd_roomId d))
        = Some (Some (take 80 (or_str rn [])))"
    unfolding e by (simp add: update_conv')
  show "snd (room_setrom st sock rn) = broadcastRoomList (rooms (fst (room_setrom st sock rn)))"
    unfolding e by simp
next
  assume "map_of (sockets st) sock = None \<or>
    (\<exists>d. map_of (sockets st) sock = Some d \<and> map_of (rooms st) (sd_roomId d) = None)"
  then show "room_setrom st sock rn = (st, [])" by (rule room_setrom_noop)
qed

theorem setrom_any_member_witness:
  "map_option (\<lambda>d. map_of (rooms (exec owner_and_pad)) (sd_roomId d) \<noteq> None)
     (map_of (sockets (exec owner_and_pad)) ''b'') = Some True \<and>
   map_option romName
     (map_of (rooms (fst (room_setrom (exec owner_and_pad) ''b'' (Some ''Zelda'')))) ''r1'')
     = Some (Some ''Zelda'') \<and>
   snd (room_setrom (exec owner_and_pad) ''b'' (Some ''Zelda'')) =
     broadcastRoomList (rooms (fst (room_setrom (exec owner_and_pad) ''b'' (Some ''Zelda'')))) \<and>
   map_of (sockets (exec owner_and_pad)) ''zz'' = None \<and>
   room_setrom (exec owner_and_pad) ''zz'' (Some ''Zelda'') = (exec owner_and_pad, [])"
proof -
  let ?st = "exec owner_and_pad"
  have h: "map_option (\<lambda>d. map_of (rooms ?st) (sd_roomId d) \<noteq> None) (map_of (sockets ?st) ''b'')
             = Some True"
    and rid: "map_option sd_roomId (map_of (sockets ?st) ''b'') = Some ''r1''"
    and z: "map_of (sockets ?st) ''zz'' = None"
    and t: "take 80 (or_str (Some ''Zelda'') []) = ''Zelda''"
    by code_simp+
  from h rid obtain d r where d: "map_of (sockets ?st) ''b'' = Some d" "sd_roomId d = ''r1''"
    and r: "map_of (rooms ?st) (sd_roomId d) = Some r"
    by (auto simp: map_option_case split: option.splits)
  from setrom_any_member [of ?st "''b''" "Some ''Zelda''"] d r t
  have 1: "map_option romName (map_of (rooms (fst (room_setrom ?st ''b'' (Some ''Zelda'')))) ''r1'')
             = Some (Some ''Zelda'')"
    and 2: "snd (room_setrom ?st ''b'' (Some ''Zelda'')) =
              broadcastRoomList (rooms (fst (room_setrom ?st ''b'' (Some ''Zelda''))))"
    by auto
  from setrom_any_member [of ?st "''zz''" "Some ''Zelda''"] z
  have 3: "room_setrom ?st ''zz'' (Some ''Zelda'') = (?st, [])" by blast
  from h 1 2 3 z show ?thesis by blast
qed

text \<open>
  C4 as stated fails: viewer \<open>v\<close> joins the new room \<open>r1\<close> and controller
  \<open>c\<close> joins after it; the host is the viewer \<open>v\<close>, not the first non-viewer
  \<open>c\<close>.
\<close>

theorem viewer_host_counterexample:
  "rooms (exec viewer_then_pad) =
     [(''r1'',
       \<lparr>players = [(''v'', \<lparr>slot = 1, name = ''vic'', role = ''viewer''\<rparr>),
                   (''c'', \<lparr>slot = 2, name = ''cat'', role = ''controller''\<rparr>)],
        host = Some ''v'', emulatorSocket = None, romName = None\<rparr>)]"
  by code_simp

text \<open>
  C4 (amended). A successful join makes the joiner the host exactly when the room had no
  participant before the join (a room created by this join, or an empty one), whatever the
  joiner's role, viewer included; a successful join into a room that has participants
  leaves the host as it was.
\<close>

theorem join_host:
  assumes "rid = normRoomId (req_roomId rq)" and "st' = fst (room_join st sock rq)"
  shows "(map_of (rooms st) rid = None \<longrightarrow>
            map_option host (map_of (rooms st') rid) = Some (Some sock)) \<and>
         (\<forall>r s. map_of (rooms st) rid = Some r \<and> assignSlot r = Some s \<longrightarrow>
            map_option host (map_of (rooms st') rid)
              = Some (if players r = [] then Some sock else host r))"
proof (intro conjI allI impI)
  assume n: "map_of (rooms st) rid = None"
  then have g: "getOrCreateRoom (rooms st) (normRoomId (req_roomId rq))
                  = (AList.update rid newRoom (rooms st), newRoom)"
    by (simp add: getOrCreateRoom_def assms(1))
  have a: "assignSlot newRoom = Some 1" by (rule assignSlot_empty) (simp add: newRoom_def)
  show "map_option host (map_of (rooms st') rid) = Some (Some sock)"
    unfolding assms(2) room_join_success [OF g a]
    by (simp add: update_conv' assms(1) newRoom_def)
next
  fix r s
  assume "map_of (rooms st) rid = Some r \<and> assignSlot r = Some s"
  then have g: "getOrCreateRoom (rooms st) (normRoomId (req_roomId rq)) = (rooms st, r)"
    and a: "assignSlot r = Some s"
    by (simp_all add: getOrCreateRoom_def assms(1))
  show "map_option host (map_of (rooms st') rid)
              = Some (if players r = [] then Some sock else host r)"
    unfolding assms(2) room_join_success [OF g a]
    by (simp add: update_conv' assms(1))
qed

theorem join_host_witness:
  "map_of (rooms init) (normRoomId (req_roomId (mk_req ''r1'' ''vic'' ''viewer''))) = None \<and>
   map_option host (map_of (rooms (fst (room_join init ''v'' (mk_req ''r1'' ''vic'' ''viewer''))))
      (normRoomId (req_roomId (mk_req ''r1'' ''vic'' ''viewer'')))) = Some (Some ''v'') \<and>
   map_option host
     (map_of (rooms (fst (room_join (exec [RoomJoin ''v'' (mk_req ''r1'' ''vic'' ''viewer'')]) ''c''
                             (mk_req ''r1'' ''cat'' ''controller''))))
        (normRoomId (req_roomId (mk_req ''r1'' ''cat'' ''controller'')))) = Some (Some ''v'')"
proof -
  let ?rq = "mk_req ''r1'' ''vic'' ''viewer''"
  let ?rq2 = "mk_req ''r1'' ''cat'' ''controller''"
  let ?st = "exec [RoomJoin ''v'' ?rq]"
  have n: "map_of (rooms init) (normRoomId (req_roomId ?rq)) = None" by code_simp
  from join_host [OF refl refl, of init ?rq "''v''"] n
  have 1: "map_option host (map_of (rooms (fst (room_join init ''v'' ?rq)))
      (normRoomId (req_roomId ?rq))) = Some (Some ''v'')" by blast
  have "map_option (\<lambda>r. (assignSlot r, players r = [], host r))
          (map_of (rooms ?st) (normRoomId (req_roomId ?rq2))) = Some (Some 2, False, Some ''v'')"
    by code_simp
  then obtain r where r: "map_of (rooms ?st) (normRoomId (req_roomId ?rq2)) = Some r"
    "assignSlot r = Some 2" "players r \<noteq> []" "host r = Some ''v''"
    by (auto simp: map_option_case split: option.splits)
  from join_host [OF refl refl, of ?st ?rq2 "''c''"] r
  have 2: "map_option host (map_of (rooms (fst (room_join ?st ''c'' ?rq2)))
        (normRoomId (req_roomId ?rq2))) = Some (Some ''v'')" by auto
  from n 1 2 show ?thesis by blast
qed

section \<open>Host reassignment and slot reuse\<close>


lemma find_first:
  "\<forall>y \<in> set pre. \<not> P y \<Longrightarrow> P x \<Longrightarrow> find P (pre @ x # post) = Some x"
  by (induction pre) simp_all

lemma find_SomeD: "find P xs = Some x \<Longrightarrow> x \<in> set xs \<and> P x"
  by (induction xs) (auto split: if_splits)

lemma nextHost_member:
  assumes "ps \<noteq> []"
  shows "\<exists>h. nextHost ps = Some h \<and> h \<in> fst ` set ps"
proof (cases "find (\<lambda>(k, p). role p \<noteq> ''viewer'') ps")
  case None
  with assms show ?thesis by (cases ps) (auto simp: nextHost_def)
next
  case (Some kp)
  then have "kp \<in> set ps" by (simp add: find_SomeD)
  with Some show ?thesis by (cases kp) (force simp: nextHost_def)
qed

lemma nextHost_first_non_viewer:
  assumes "ps = pre @ (k, p) # post" and "role p \<noteq> ''viewer''"
    and "\<forall>(k', p') \<in> set pre. role p' = ''viewer''"
  shows "nextHost ps = Some k"
proof -
  have "find (\<lambda>(k, p). role p \<noteq> ''viewer'') (pre @ (k, p) # post) = Some (k, p)"
    using assms(2,3) by (intro find_first) auto
  then show ?thesis by (simp add: nextHost_def assms(1))
qed

lemma nextHost_all_viewers:
  assumes "\<forall>(k, p) \<in> set ps. role p = ''viewer''" and "ps \<noteq> []"
  shows "nextHost ps = Some (fst (hd ps))"
proof -
  have "find (\<lambda>(k, p). role p \<noteq> ''viewer'') ps = None"
    using assms(1) by (auto simp: find_None_iff)
  with assms(2) show ?thesis by (cases ps) (auto simp: nextHost_def)
qed

lemma nextHost_non_viewer:
  assumes "\<exists>(k, p) \<in> set ps. role p \<noteq> ''viewer''" and "nextHost ps = Some h"
  shows "\<exists>p. (h, p) \<in> set ps \<and> role p \<noteq> ''viewer''"
proof (cases "find (\<lambda>(k, p). role p \<noteq> ''viewer'') ps")
  case None
  with assms(1) show ?thesis by (auto simp: find_None_iff)
next
  case (Some kp)
  obtain k p where kp: "kp = (k, p)" by (cases kp)
  from find_SomeD [OF Some] have "kp \<in> set ps" "role (snd kp) \<noteq> ''viewer''"
    by (simp_all add: kp)
  moreover from Some assms(2) have "h = k" by (simp add: nextHost_def kp)
  ultimately show ?thesis by (auto simp: kp)
qed

lemma disconnect_newhost_emitted:
  assumes "map_of (sockets st) sock = Some d" and "sd_roomId d \<noteq> []"
    and "map_of (rooms st) (sd_roomId d) = Some r"
    and "AList.delete sock (players r) \<noteq> []" and "host r = Some sock"
  shows "Emit (IoTo (sd_roomId d)) (RoomNewHost (nextHost (AList.delete sock (players r))))
           \<in> set (snd (disconnect st sock))"
  using assms by (simp add: disconnect_def Let_def)

text \<open>
  C7. When the socket that is the host of its tracked room disconnects and participants
  remain, the room's new host is one of the remaining participants: the first remaining
  entry whose role is not \<open>viewer\<close> (hence a non-viewer whenever one remains), and
  the first remaining entry when all are viewers; \<open>room:newhost\<close> with that host is
  emitted to the room.
\<close>

theorem host_reassigned:
  assumes "map_of (sockets st) sock = Some d" and "sd_roomId d \<noteq> []"
    and "map_of (rooms st) (sd_roomId d) = Some r" and "host r = Some sock"
    and "rest = AList.delete sock (players r)" and "rest \<noteq> []"
  shows "\<exists>r' h. map_of (rooms (fst (disconnect st sock))) (sd_roomId d) = Some r' \<and>
           players r' = rest \<and> host r' = Some h \<and> h \<in> fst ` set rest \<and>
           (\<forall>pre k p post. rest = pre @ (k, p) # post \<and> role p \<noteq> ''viewer'' \<and>
                (\<forall>(k', p') \<in> set pre. role p' = ''viewer'') \<longrightarrow> h = k) \<and>
           ((\<forall>(k, p) \<in> set rest. role p = ''viewer'') \<longrightarrow> h = fst (hd rest)) \<and>
           ((\<exists>(k, p) \<in> set rest. role p \<noteq> ''viewer'') \<longrightarrow>
                (\<exists>p. (h, p) \<in> set rest \<and> role p \<noteq> ''viewer'')) \<and>
           Emit (IoTo (sd_roomId d)) (RoomNewHost (Some h)) \<in> set (snd (disconnect st sock))"
proof -
  let ?r' = "r\<lparr>players := AList.delete sock (players r),
               emulatorSocket := (if emulatorSocket r = Some sock then None
                                  else emulatorSocket r),
               host := (if host r = Some sock then nextHost (AList.delete sock (players r))
                        else host r)\<rparr>"
  from assms(5,6) have ne: "AList.delete sock (players r) \<noteq> []" by simp
  from nextHost_member [OF assms(6)] obtain h where h: "nextHost rest = Some h"
    "h \<in> fst ` set rest" by blast
  have 1: "map_of (rooms (fst (disconnect st sock))) (sd_roomId d) = Some ?r'"
    by (simp add: disconnect_remaining [OF assms(1,2,3) ne] update_conv')
  have 2: "players ?r' = rest" by (simp add: assms(5))
  have 3: "host ?r' = Some h" using h(1) by (simp add: assms(4,5))
  have 4: "\<forall>pre k p post. rest = pre @ (k, p) # post \<and> role p \<noteq> ''viewer'' \<and>
                (\<forall>(k', p') \<in> set pre. role p' = ''viewer'') \<longrightarrow> h = k"
    using nextHost_first_non_viewer [of rest] h(1) by fastforce
  have 5: "(\<forall>(k, p) \<in> set rest. role p = ''viewer'') \<longrightarrow> h = fst (hd rest)"
    using nextHost_all_viewers [of rest] h(1) assms(6) by auto
  have 6: "(\<exists>(k, p) \<in> set rest. role p \<noteq> ''viewer'') \<longrightarrow>
                (\<exists>p. (h, p) \<in> set rest \<and> role p \<noteq> ''viewer'')"
    using nextHost_non_viewer [of rest h] h(1) by blast
  have 7: "Emit (IoTo (sd_roomId d)) (RoomNewHost (Some h)) \<in> set (snd (disconnect st sock))"
    using disconnect_newhost_emitted [OF assms(1,2,3) ne assms(4)] h(1) by (simp add: assms(5))
  from 1 2 3 h(2) 4 5 6 7 show ?thesis by blast
qed


theorem host_reassigned_witness:
  "map_option (\<lambda>r. (host r, AList.delete ''a'' (players r)))
     (map_of (rooms (exec host_leaves)) ''r1'')
     = Some (Some ''a'',
         [(''b'', \<lparr>slot = 2, name = ''bob'', role = ''viewer''\<rparr>),
          (''c'', \<lparr>slot = 3, name = ''cy'', role = ''controller''\<rparr>),
          (''d'', \<lparr>slot = 4, name = ''dee'', role = ''viewer''\<rparr>)]) \<and>
   map_option host (map_of (rooms (fst (disconnect (exec host_leaves) ''a''))) ''r1'')
     = Some (Some ''c'') \<and>
   Emit (IoTo ''r1'') (RoomNewHost (Some ''c'')) \<in> set (snd (disconnect (exec host_leaves) ''a''))"
proof -
  let ?st = "exec host_leaves"
  let ?rest = "[(''b'', \<lparr>slot = 2, name = ''bob'', role = ''viewer''\<rparr>),
          (''c'', \<lparr>slot = 3, name = ''cy'', role = ''controller''\<rparr>),
          (''d'', \<lparr>slot = 4, name = ''dee'', role = ''viewer''\<rparr>)]"
  have v: "map_option (\<lambda>r. (host r, AList.delete ''a'' (players r))) (map_of (rooms ?st) ''r1'')
     = Some (Some ''a'', ?rest)"
    and sd: "map_option sd_roomId (map_of (sockets ?st) ''a'') = Some ''r1''"
    by code_simp+
  from sd obtain d where d: "map_of (sockets ?st) ''a'' = Some d" "sd_roomId d = ''r1''"
    by (auto simp: map_option_case split: option.splits)
  from v d obtain r where r: "map_of (rooms ?st) (sd_roomId d) = Some r" "host r = Some ''a''"
    "?rest = AList.delete ''a'' (players r)"
    by (auto simp: map_option_case split: option.splits)
  have ne: "sd_roomId d \<noteq> []" "?rest \<noteq> []" by (simp_all add: d)
  from host_reassigned [OF d(1) ne(1) r(1) r(2) r(3) ne(2)]
  obtain r' h where r': "map_of (rooms (fst (disconnect ?st ''a''))) (sd_roomId d) = Some r'"
    "host r' = Some h"
    and first: "\<forall>pre k p post. ?rest = pre @ (k, p) # post \<and> role p \<noteq> ''viewer'' \<and>
                (\<forall>(k', p') \<in> set pre. role p' = ''viewer'') \<longrightarrow> h = k"
    and em: "Emit (IoTo (sd_roomId d)) (RoomNewHost (Some h)) \<in> set (snd (disconnect ?st ''a''))"
    by blast
  from first [rule_format, of "[(''b'', \<lparr>slot = 2, name = ''bob'', role = ''viewer''\<rparr>)]"
      "''c''" "\<lparr>slot = 3, name = ''cy'', role = ''controller''\<rparr>"
      "[(''d'', \<lparr>slot = 4, name = ''dee'', role = ''viewer''\<rparr>)]"]
  have "h = ''c''" by simp
  with r' em d(2) v show ?thesis by simp
qed

lemma lowest_free_after_release:
  assumes "k \<notin> set used" and "1 \<le> k" and "k \<le> MAX_PLAYERS"
  shows "\<exists>s. scanSlots used 1 = Some s \<and> s \<le> k \<and>
           (s = k \<longleftrightarrow> (\<forall>t. 1 \<le> t \<and> t < k \<longrightarrow> t \<in> set used))"
proof (cases "scanSlots used 1")
  case None
  from scanSlots_None [OF None assms(2,3)] assms(1) show ?thesis by simp
next
  case (Some s)
  from scanSlots_Some [OF Some]
  have s: "1 \<le> s" "s \<notin> set used" "\<forall>t. 1 \<le> t \<and> t < s \<longrightarrow> t \<in> set used" by simp_all
  have le: "s \<le> k"
  proof (rule ccontr)
    assume "\<not> s \<le> k"
    with assms(2) s(3) have "k \<in> set used" by simp
    with assms(1) show False by simp
  qed
  have "s = k \<longleftrightarrow> (\<forall>t. 1 \<le> t \<and> t < k \<longrightarrow> t \<in> set used)"
  proof
    assume "s = k" with s(3) show "\<forall>t. 1 \<le> t \<and> t < k \<longrightarrow> t \<in> set used" by simp
  next
    assume a: "\<forall>t. 1 \<le> t \<and> t < k \<longrightarrow> t \<in> set used"
    show "s = k"
    proof (rule ccontr)
      assume "s \<noteq> k"
      with le have "s < k" by simp
      with a s(1) have "s \<in> set used" by simp
      with s(2) show False by simp
    qed
  qed
  with Some le show ?thesis by simp
qed

lemma released_slot_free:
  assumes "distinct (map (\<lambda>(k, p). slot p) ps)" and "map_of ps sock = Some p"
  shows "slot p \<notin> set (map (\<lambda>(k, p). slot p) (AList.delete sock ps))"
proof
  assume "slot p \<in> set (map (\<lambda>(k, p). slot p) (AList.delete sock ps))"
  then obtain k q where kq: "(k, q) \<in> set ps" "k \<noteq> sock" "slot q = slot p"
    by (auto simp: AList.delete_eq)
  from assms(2) have pin: "(sock, p) \<in> set ps" by (rule map_of_SomeD)
  have inj: "inj_on (\<lambda>(k, p). slot p) (set ps)"
    using assms(1) by (simp add: distinct_map)
  have "(\<lambda>(k, p). slot p) (k, q) = (\<lambda>(k, p). slot p) (sock, p)"
    using kq(3) by simp
  from inj_onD [OF inj this kq(1) pin] have "(k, q) = (sock, p)" .
  with kq(2) show False by simp
qed

lemma room_join_slot:
  assumes "getOrCreateRoom (rooms st) (normRoomId (req_roomId rq)) = (rs1, r)"
    and "assignSlot r = Some s"
  shows "map_option sd_slot (map_of (sockets (fst (room_join st c rq))) c) = Some s"
  by (simp add: room_join_success [OF assms] update_conv')

lemma getOrCreateRoom_after_disconnect:
  assumes "map_of (sockets st) sock = Some d" and "sd_roomId d \<noteq> []"
    and "map_of (rooms st) (sd_roomId d) = Some r"
  shows "\<exists>rs1 r1. getOrCreateRoom (rooms (fst (disconnect st sock))) (sd_roomId d) = (rs1, r1) \<and>
           players r1 = AList.delete sock (players r)"
proof (cases "AList.delete sock (players r) = []")
  case True
  have "map_of (rooms (fst (disconnect st sock))) (sd_roomId d) = None"
    by (simp add: disconnect_last [OF assms True] delete_conv')
  with True show ?thesis by (simp add: getOrCreateRoom_def newRoom_def)
next
  case False
  show ?thesis
    by (simp add: disconnect_remaining [OF assms False] getOrCreateRoom_def update_conv')
qed

text \<open>
  C8's consequence as stated fails: in room \<open>r1\<close>, after \<open>b\<close> (slot 2) has left,
  \<open>c\<close> leaves and frees slot 3, yet the next join is assigned slot 2.
\<close>

theorem freed_slot_counterexample:
  "map_option (\<lambda>r. map (\<lambda>(k, p). (k, slot p)) (players r))
     (map_of (rooms (exec two_left)) ''r1'') = Some [(''a'', 1), (''c'', 3)] \<and>
   map_option (\<lambda>r. map (\<lambda>(k, p). (k, slot p)) (players r))
     (map_of (rooms (exec (two_left @ [Disconnect ''c'']))) ''r1'') = Some [(''a'', 1)] \<and>
   map_option (\<lambda>r. map (\<lambda>(k, p). (k, slot p)) (players r))
     (map_of (rooms (exec (two_left @
        [Disconnect ''c'', RoomJoin ''d'' (mk_req ''r1'' ''dee'' ''controller'')]))) ''r1'')
     = Some [(''a'', 1), (''d'', 2)]"
  by code_simp

text \<open>
  C8 (amended). \<open>assignSlot\<close> returns null exactly when the slots 1..4 are all in
  use, and otherwise the lowest slot of 1..4 that is not in use. Consequently, when a
  participant with slot \<open>k\<close> disconnects from its tracked room (in a state with the slot
  invariant), the next join to that room identifier is assigned a slot that is at most
  \<open>k\<close>, and equal to \<open>k\<close> exactly when every slot below \<open>k\<close> is still in
  use.
\<close>

theorem slot_allocation:
  "(assignSlot r = None \<longleftrightarrow> (\<forall>t. 1 \<le> t \<and> t \<le> MAX_PLAYERS \<longrightarrow> t \<in> set (usedSlots r))) \<and>
   (\<forall>s. assignSlot r = Some s \<longrightarrow>
        1 \<le> s \<and> s \<le> MAX_PLAYERS \<and> s \<notin> set (usedSlots r) \<and>
        (\<forall>t. 1 \<le> t \<and> t < s \<longrightarrow> t \<in> set (usedSlots r))) \<and>
   (\<forall>st sock d r0 p rq c.
        slots_ok st \<and> map_of (sockets st) sock = Some d \<and> sd_roomId d \<noteq> [] \<and>
        map_of (rooms st) (sd_roomId d) = Some r0 \<and> map_of (players r0) sock = Some p \<and>
        normRoomId (req_roomId rq) = sd_roomId d \<longrightarrow>
        (\<exists>s. map_option sd_slot
                (map_of (sockets (fst (room_join (fst (disconnect st sock)) c rq))) c) = Some s \<and>
             s \<le> slot p \<and>
             (s = slot p \<longleftrightarrow>
                (\<forall>t. 1 \<le> t \<and> t < slot p \<longrightarrow>
                     t \<in> set (map (\<lambda>(k, q). slot q) (AList.delete sock (players r0)))))))"
proof -
  have A: "assignSlot r = None \<longleftrightarrow> (\<forall>t. 1 \<le> t \<and> t \<le> MAX_PLAYERS \<longrightarrow> t \<in> set (usedSlots r))"
  proof
    assume "assignSlot r = None"
    then show "\<forall>t. 1 \<le> t \<and> t \<le> MAX_PLAYERS \<longrightarrow> t \<in> set (usedSlots r)"
      using scanSlots_None [of "usedSlots r" 1] by (simp add: assignSlot_def)
  next
    assume a: "\<forall>t. 1 \<le> t \<and> t \<le> MAX_PLAYERS \<longrightarrow> t \<in> set (usedSlots r)"
    show "assignSlot r = None"
    proof (cases "assignSlot r")
      case None then show ?thesis .
    next
      case (Some s)
      with scanSlots_Some [of "usedSlots r" 1 s] a show ?thesis
        by (auto simp: assignSlot_def)
    qed
  qed
  have B: "\<forall>s. assignSlot r = Some s \<longrightarrow>
        1 \<le> s \<and> s \<le> MAX_PLAYERS \<and> s \<notin> set (usedSlots r) \<and>
        (\<forall>t. 1 \<le> t \<and> t < s \<longrightarrow> t \<in> set (usedSlots r))"
    using scanSlots_Some [of "usedSlots r" 1] by (simp add: assignSlot_def)
  have C: "\<forall>st sock d r0 p rq c.
        slots_ok st \<and> map_of (sockets st) sock = Some d \<and> sd_roomId d \<noteq> [] \<and>
        map_of (rooms st) (sd_roomId d) = Some r0 \<and> map_of (players r0) sock = Some p \<and>
        normRoomId (req_roomId rq) = sd_roomId d \<longrightarrow>
        (\<exists>s. map_option sd_slot
                (map_of (sockets (fst (room_join (fst (disconnect st sock)) c rq))) c) = Some s \<and>
             s \<le> slot p \<and>
             (s = slot p \<longleftrightarrow>
                (\<forall>t. 1 \<le> t \<and> t < slot p \<longrightarrow>
                     t \<in> set (map (\<lambda>(k, q). slot q) (AList.delete sock (players r0))))))"
  proof (intro allI impI)
  fix st :: state and sock :: sid and d :: sockdata and r0 :: room and p :: player
    and rq :: join_req and c :: sid
  assume a: "slots_ok st \<and> map_of (sockets st) sock = Some d \<and> sd_roomId d \<noteq> [] \<and>
        map_of (rooms st) (sd_roomId d) = Some r0 \<and> map_of (players r0) sock = Some p \<and>
        normRoomId (req_roomId rq) = sd_roomId d"
  then have d: "map_of (sockets st) sock = Some d" "sd_roomId d \<noteq> []"
    and r0: "map_of (rooms st) (sd_roomId d) = Some r0" and p: "map_of (players r0) sock = Some p"
    and rid: "normRoomId (req_roomId rq) = sd_roomId d" and ok: "slots_ok st"
    by simp_all
  from r0 have "(sd_roomId d, r0) \<in> set (rooms st)" by (rule map_of_SomeD)
  with ok have rok: "room_slots_ok r0" by (auto simp: slots_ok_def)
  from p have pin: "(sock, p) \<in> set (players r0)" by (rule map_of_SomeD)
  with rok have bounds: "1 \<le> slot p" "slot p \<le> MAX_PLAYERS"
    by (auto simp: room_slots_ok_def usedSlots_def)
  let ?used = "map (\<lambda>(k, q). slot q) (AList.delete sock (players r0))"
  from rok have "distinct (map (\<lambda>(k, q). slot q) (players r0))"
    by (simp add: room_slots_ok_def usedSlots_def)
  from released_slot_free [OF this p] have free: "slot p \<notin> set ?used" .
  from getOrCreateRoom_after_disconnect [OF d r0] obtain rs1 r1
    where g: "getOrCreateRoom (rooms (fst (disconnect st sock))) (normRoomId (req_roomId rq))
                = (rs1, r1)"
      and pl: "players r1 = AList.delete sock (players r0)"
    unfolding rid by blast
  from lowest_free_after_release [OF free bounds] obtain s
    where s: "scanSlots ?used 1 = Some s" "s \<le> slot p"
      "s = slot p \<longleftrightarrow> (\<forall>t. 1 \<le> t \<and> t < slot p \<longrightarrow> t \<in> set ?used)"
    by blast
  from s(1) have "assignSlot r1 = Some s" by (simp add: assignSlot_def usedSlots_def pl)
  from room_join_slot [OF g this, of c] s(2,3)
  show "\<exists>s. map_option sd_slot
                (map_of (sockets (fst (room_join (fst (disconnect st sock)) c rq))) c) = Some s \<and>
             s \<le> slot p \<and>
             (s = slot p \<longleftrightarrow> (\<forall>t. 1 \<le> t \<and> t < slot p \<longrightarrow> t \<in> set ?used))"
    by blast
  qed
  show ?thesis by (rule conjI [OF A conjI [OF B C]])
qed


theorem slot_allocation_witness:
  "slots_ok (exec four_joined) \<and>
   map_option (\<lambda>r. (map_of (players r) ''b'', AList.delete ''b'' (players r)))
     (map_of (rooms (exec four_joined)) ''r1'')
     = Some (Some \<lparr>slot = 2, name = ''bob'', role = ''controller''\<rparr>,
         [(''a'', \<lparr>slot = 1, name = ''ann'', role = ''controller''\<rparr>),
          (''c'', \<lparr>slot = 3, name = ''cy'', role = ''controller''\<rparr>),
          (''d'', \<lparr>slot = 4, name = ''dee'', role = ''viewer''\<rparr>)]) \<and>
   map_option sd_slot
     (map_of (sockets (fst (room_join (fst (disconnect (exec four_joined) ''b'')) ''e''
                              (mk_req ''r1'' ''eve'' ''controller'')))) ''e'') = Some 2"
proof -
  let ?st = "exec four_joined"
  let ?rq = "mk_req ''r1'' ''eve'' ''controller''"
  let ?pb = "\<lparr>slot = 2, name = ''bob'', role = ''controller''\<rparr>"
  let ?rest = "[(''a'', \<lparr>slot = 1, name = ''ann'', role = ''controller''\<rparr>),
          (''c'', \<lparr>slot = 3, name = ''cy'', role = ''controller''\<rparr>),
          (''d'', \<lparr>slot = 4, name = ''dee'', role = ''viewer''\<rparr>)]"
  have ok: "slots_ok ?st" by code_simp
  have v: "map_option (\<lambda>r. (map_of (players r) ''b'', AList.delete ''b'' (players r)))
     (map_of (rooms ?st) ''r1'') = Some (Some ?pb, ?rest)"
    and sd: "map_option sd_roomId (map_of (sockets ?st) ''b'') = Some ''r1''"
    and rid: "normRoomId (req_roomId ?rq) = ''r1''"
    by code_simp+
  from sd obtain d where d: "map_of (sockets ?st) ''b'' = Some d" "sd_roomId d = ''r1''"
    by (auto simp: map_option_case split: option.splits)
  from v d obtain r0 where r0: "map_of (rooms ?st) (sd_roomId d) = Some r0"
    "map_of (players r0) ''b'' = Some ?pb" "AList.delete ''b'' (players r0) = ?rest"
    by (auto simp: map_option_case split: option.splits)
  have hyp: "slots_ok ?st \<and> map_of (sockets ?st) ''b'' = Some d \<and> sd_roomId d \<noteq> [] \<and>
        map_of (rooms ?st) (sd_roomId d) = Some r0 \<and> map_of (players r0) ''b'' = Some ?pb \<and>
        normRoomId (req_roomId ?rq) = sd_roomId d"
    using ok d r0 rid by simp
  from slot_allocation [of newRoom, THEN conjunct2, THEN conjunct2, rule_format, OF hyp, of "''e''"]
  obtain s where s: "map_option sd_slot
        (map_of (sockets (fst (room_join (fst (disconnect ?st ''b'')) ''e'' ?rq))) ''e'') = Some s"
    and iff: "s = slot ?pb \<longleftrightarrow>
       (\<forall>t. 1 \<le> t \<and> t < slot ?pb \<longrightarrow>
            t \<in> set (map (\<lambda>(k, q). slot q) (AList.delete ''b'' (players r0))))"
    by blast
  have "\<forall>t::int. 1 \<le> t \<and> t < 2 \<longrightarrow> t \<in> {1, 3, 4}" by auto
  with iff have "s = 2" by (simp add: r0(3))
  with s ok v show ?thesis by simp
qed

end
